theory Spec2Isabelle
  imports Main "HOL-Library.Multiset" "HOL-Library.Sublist" "HOL-Library.Char_ord"
    "HOL-Library.List_Lexorder"
begin

section \<open>The deployment check of the AWS deploy plugin (checkForChanges.js)\<close>

text \<open>
  The module decides whether a deployment can be skipped and removes stale CloudWatch
  log subscription filters. Every method is asynchronous and talks to the provider, so
  the embedding has three layers: the values the provider hands back, promises as
  state transformers that either fulfil or reject, and the methods themselves, written
  with \<open>thenP\<close>, \<open>catchP\<close> and \<open>allP\<close> where the source chains \<open>.then\<close>,
  \<open>.catch\<close> and \<open>Promise.all\<close>.

  JavaScript strings are \<open>string\<close>; the order on them is the lexicographic order on
  character codes, which is how JavaScript compares strings with \<open><\<close> and how
  \<open>Array.prototype.sort\<close> orders them by default. A \<open>Date\<close> is the integer number
  of milliseconds since the epoch that its \<open>valueOf\<close> returns; \<open>new Date(0)\<close> is 0.
\<close>

subsection \<open>Errors and provider data\<close>

text \<open>
  A rejection reason. \<open>ProviderError\<close> is what \<open>provider.request\<close> rejects with: it
  carries a message and \<open>providerError.statusCode\<close>. \<open>ServerlessError\<close> is the error
  class the module constructs itself; \<open>TypeError\<close> stands for every error without a
  \<open>providerError\<close> property.
\<close>

datatype error =
    ProviderError string "nat option"
  | ServerlessError string
  | TypeError string

fun message :: "error \<Rightarrow> string" where
  "message (ProviderError m c) = m"
| "message (ServerlessError m) = m"
| "message (TypeError m) = m"

text \<open>An entry of \<open>Contents\<close> in the answer of \<open>listObjectsV2\<close>.\<close>

record s3_object =
  Key :: string
  Size :: nat

text \<open>The answer of \<open>listObjectsV2\<close>; \<open>Contents\<close> may be absent.\<close>

record list_output =
  Contents :: "s3_object list option"

text \<open>
  The answer of \<open>headObject\<close>: the user metadata map and the modification date, which
  the source guards with \<open>object.LastModified &&\<close> and so may be absent.
\<close>

record head_object =
  Metadata :: "string \<rightharpoonup> string"
  LastModified :: "int option"

record subscription_filter =
  filterName :: string
  destinationArn :: string

text \<open>The answer of \<open>getAccountInfo\<close>: \<open>accountId\<close> and \<open>partition\<close>.\<close>

datatype account = Account string string

text \<open>
  A \<open>cloudwatchLog\<close> event is either the log group name itself or an object with a
  \<open>logGroup\<close> property.
\<close>

datatype cloudwatch_log = LogGroupName string | LogGroupObject string

record event =
  cloudwatchLog :: "cloudwatch_log option"

record function_obj =
  name :: string
  events :: "event list option"

record options =
  force :: bool

text \<open>What a promise of the module fulfils with.\<close>

datatype js_value = Undefined | JsFalse | DeleteResponse | Array "js_value list"

text \<open>The requests that reach the provider or the file system, in the order issued.\<close>

datatype call =
    ListObjectsV2 string string
  | HeadObject string string
  | GetFunction string
  | ReadFile string
  | GetAccountInfo
  | DescribeSubscriptionFilters string
  | DeleteSubscriptionFilter string string

subsection \<open>The plugin instance and its collaborators\<close>

text \<open>
  Everything \<open>this\<close> gives access to. The configuration is fixed for one run. The
  answers of the provider and of the file system are arbitrary functions of the request
  and of the requests issued before it, so that two equal requests may be answered
  differently. \<open>Lambda_getFunction\<close> answers with the instant
  \<open>new Date(res.Configuration.LastModified)\<close> denotes (the provider sends an ISO 8601
  timestamp, so the date is a valid one; an answer without \<open>Configuration\<close> makes the
  callback throw, which is an answer \<open>Inl\<close> here); \<open>readFile_sha256\<close> with the
  base64 SHA-256 digest of the file read. The naming convention, the path functions, the
  glob and the hash of the normalized template belong to other modules and are
  parameters.
\<close>

record env =
  bucketName :: string
  getDeploymentPrefix :: string
  service :: string
  getStage :: string
  getStackName :: string
  getRegion :: string
  service_functions :: "(string \<times> function_obj) list"
  getCloudWatchLogLogicalId :: "string \<Rightarrow> nat \<Rightarrow> string"
  servicePath :: string
  artifact :: "string option"
  path_join :: "string \<Rightarrow> string \<Rightarrow> string"
  path_resolve :: "string \<Rightarrow> string \<Rightarrow> string"
  globby_zip :: "string \<Rightarrow> string list"
  localCfHash :: string
  readFile_sha256 :: "call list \<Rightarrow> string \<Rightarrow> error + string"
  S3_listObjectsV2 :: "call list \<Rightarrow> string \<Rightarrow> string \<Rightarrow> error + list_output option"
  S3_headObject :: "call list \<Rightarrow> string \<Rightarrow> string \<Rightarrow> error + head_object"
  Lambda_getFunction :: "call list \<Rightarrow> string \<Rightarrow> error + int"
  getAccountInfo :: "call list \<Rightarrow> error + account"
  describeSubscriptionFilters :: "call list \<Rightarrow> string \<Rightarrow> error + subscription_filter list"
  deleteSubscriptionFilter :: "call list \<Rightarrow> string \<Rightarrow> string \<Rightarrow> error + unit"

text \<open>
  The state a run changes: the flag \<open>provider.shouldNotDeploy\<close>, the messages passed to
  \<open>cli.log\<close>, and the requests issued.
\<close>

record state =
  shouldNotDeploy :: bool
  logged :: "string list"
  calls :: "call list"

subsection \<open>Promises\<close>

text \<open>
  A promise is run from a state and settles: \<open>Inr\<close> the value it fulfils with, \<open>Inl\<close>
  the reason it rejects with, together with the state it leaves.
\<close>

type_synonym 'a promise = "state \<Rightarrow> (error + 'a) \<times> state"

definition resolve :: "'a \<Rightarrow> 'a promise" where
  "resolve x = (\<lambda>s. (Inr x, s))"

definition reject :: "error \<Rightarrow> 'a promise" where
  "reject e = (\<lambda>s. (Inl e, s))"

definition thenP :: "'a promise \<Rightarrow> ('a \<Rightarrow> 'b promise) \<Rightarrow> 'b promise" where
  "thenP p f = (\<lambda>s. case p s of (Inl e, s') \<Rightarrow> (Inl e, s') | (Inr x, s') \<Rightarrow> f x s')"

definition catchP :: "'a promise \<Rightarrow> (error \<Rightarrow> 'a promise) \<Rightarrow> 'a promise" where
  "catchP p h = (\<lambda>s. case p s of (Inl e, s') \<Rightarrow> h e s' | (Inr x, s') \<Rightarrow> (Inr x, s'))"

text \<open>
  \<open>Promise.all\<close> over promises that were all created before it is called: every one of
  them runs, also after one has rejected, and the result rejects with the reason of the
  first one in the list that rejected. The promises run one after the other in list
  order, which is the order in which the source creates them; of the interleavings the
  event loop allows, this is the one recorded in \<open>calls\<close>. The source differs in
  two ways that no property below rests on: the first request of every promise is issued
  when the promise is created, so with several promises all first requests come before
  any later one, and \<open>Promise.all\<close> rejects with the rejection that arrives first,
  which need not be the first in the list.
\<close>

fun allP :: "'a promise list \<Rightarrow> 'a list promise" where
  "allP [] = resolve []"
| "allP (p # ps) = (\<lambda>s.
     case p s of (r, s') \<Rightarrow>
     case allP ps s' of (rs, s'') \<Rightarrow>
       (case r of
          Inl e \<Rightarrow> Inl e
        | Inr x \<Rightarrow> (case rs of Inl e' \<Rightarrow> Inl e' | Inr xs \<Rightarrow> Inr (x # xs)),
        s''))"

text \<open>\<open>Promise.all\<close> of the two promises of different type in \<open>checkForChanges\<close>.\<close>

definition allP2 :: "'a promise \<Rightarrow> 'b promise \<Rightarrow> ('a \<times> 'b) promise" where
  "allP2 p q = (\<lambda>s.
     case p s of (r, s') \<Rightarrow>
     case q s' of (r', s'') \<Rightarrow>
       (case r of
          Inl e \<Rightarrow> Inl e
        | Inr x \<Rightarrow> (case r' of Inl e' \<Rightarrow> Inl e' | Inr y \<Rightarrow> Inr (x, y)),
        s''))"

text \<open>\<open>provider.request\<close>: the request is recorded and answered from what came before.\<close>

definition request :: "call \<Rightarrow> (call list \<Rightarrow> error + 'a) \<Rightarrow> 'a promise" where
  "request c answer = (\<lambda>s. (answer (calls s), s\<lparr>calls := calls s @ [c]\<rparr>))"

definition cli_log :: "string \<Rightarrow> unit promise" where
  "cli_log msg = (\<lambda>s. (Inr (), s\<lparr>logged := logged s @ [msg]\<rparr>))"

subsection \<open>String and array primitives of JavaScript\<close>

text \<open>\<open>s.includes(sub)\<close>.\<close>

fun str_includes :: "string \<Rightarrow> string \<Rightarrow> bool" where
  "str_includes [] sub = (sub = [])"
| "str_includes (c # cs) sub = (prefix sub (c # cs) \<or> str_includes cs sub)"

text \<open>\<open>xs.join(sep)\<close>; \<open>xs.toString()\<close> and \<open>`${xs}`\<close> are \<open>join '',''\<close>.\<close>

fun join :: "string \<Rightarrow> string list \<Rightarrow> string" where
  "join sep [] = []"
| "join sep [x] = x"
| "join sep (x # y # ys) = x @ sep @ join sep (y # ys)"

text \<open>\<open>s.lastIndexOf(c)\<close> for a single character: -1 when \<open>c\<close> does not occur.\<close>

fun lastIndexOf :: "string \<Rightarrow> char \<Rightarrow> int" where
  "lastIndexOf [] c = - 1"
| "lastIndexOf (x # xs) c =
     (let r = lastIndexOf xs c
      in if 0 \<le> r then r + 1 else if x = c then 0 else - 1)"

text \<open>
  \<open>s.substring(start, end)\<close>: both indices are clamped to the string and swapped when
  \<open>start\<close> is the larger.
\<close>

definition substring :: "string \<Rightarrow> int \<Rightarrow> int \<Rightarrow> string" where
  "substring s start end' =
     (let n = int (length s);
          a = min (max start 0) n;
          b = min (max end' 0) n;
          lo = nat (min a b);
          hi = nat (max a b)
      in take (hi - lo) (drop lo s))"

text \<open>\<open>s.split(sep)\<close> for a single character separator; \<open>''''.split(sep)\<close> is \<open>['''']\<close>.\<close>

fun split :: "char \<Rightarrow> string \<Rightarrow> string list" where
  "split sep [] = [[]]"
| "split sep (c # cs) =
     (if c = sep then [] # split sep cs
      else (case split sep cs of
              [] \<Rightarrow> [[c]]
            | w # ws \<Rightarrow> (c # w) # ws))"

text \<open>\<open>xs[i]\<close>: \<open>undefined\<close> (here \<open>None\<close>) outside the array.\<close>

definition index :: "'a list \<Rightarrow> int \<Rightarrow> 'a option" where
  "index xs i = (if 0 \<le> i \<and> i < int (length xs) then Some (xs ! nat i) else None)"

text \<open>
  \<open>s.replace(/\r?\n/g, '''')\<close>: every line feed is removed, together with a carriage
  return right before it.
\<close>

fun strip_newlines :: "string \<Rightarrow> string" where
  "strip_newlines [] = []"
| "strip_newlines [c] = (if c = CHR 0x0A then [] else [c])"
| "strip_newlines (c # d # cs) =
     (if c = CHR 0x0D \<and> d = CHR 0x0A then strip_newlines cs
      else if c = CHR 0x0A then strip_newlines (d # cs)
      else c # strip_newlines (d # cs))"

text \<open>
  \<open>Array.from(new Set(xs))\<close>: the elements in the order of their first occurrence.
\<close>

fun uniq :: "'a list \<Rightarrow> 'a list" where
  "uniq [] = []"
| "uniq (x # xs) = x # uniq (filter (\<lambda>y. y \<noteq> x) xs)"

text \<open>
  \<open>_.orderBy(objects, [''Key''], [''desc''])\<close>: a stable sort by descending key, so objects
  with equal keys keep their order.
\<close>

definition orderBy_Key_desc :: "s3_object list \<Rightarrow> s3_object list" where
  "orderBy_Key_desc objects = rev (sort_key Key (rev objects))"

subsection \<open>getMostRecentObjects\<close>

text \<open>The directory of a key: \<open>key.substring(0, key.lastIndexOf(''/''))\<close>.\<close>

definition directory :: "string \<Rightarrow> string" where
  "directory key = substring key 0 (lastIndexOf key CHR ''/'')"

definition bucket_missing_message :: "string \<Rightarrow> string \<Rightarrow> string" where
  "bucket_missing_message bucket stackName =
     join '' ''
       [''The serverless deployment bucket '' @ [CHR 0x22] @ bucket @ [CHR 0x22]
          @ '' does not exist.'',
        ''Create it manually if you want to reuse the CloudFormation stack ''
          @ [CHR 0x22] @ stackName @ [CHR 0x22] @ '','',
        ''or delete the stack if it is no longer required.'']"

definition getMostRecentObjects :: "env \<Rightarrow> s3_object list promise" where
  "getMostRecentObjects env =
     (let Bucket = bucketName env;
          Prefix = getDeploymentPrefix env @ ''/'' @ service env @ ''/'' @ getStage env
      in thenP
           (catchP
              (request (ListObjectsV2 Bucket Prefix)
                 (\<lambda>h. S3_listObjectsV2 env h Bucket Prefix))
              (\<lambda>reason.
                 if \<not> str_includes (message reason) ''The specified bucket does not exist''
                 then reject reason
                 else
                   (let stackName = getStackName env
                    in reject (ServerlessError (bucket_missing_message Bucket stackName)))))
           (\<lambda>result.
              case result of
                None \<Rightarrow> resolve []
              | Some res \<Rightarrow>
                  (case Contents res of
                     None \<Rightarrow> resolve []
                   | Some objects \<Rightarrow>
                       if objects \<noteq> [] then
                         (let ordered = orderBy_Key_desc objects;
                              firstKey = Key (hd ordered);
                              directory' = directory firstKey;
                              mostRecentObjects =
                                filter (\<lambda>obj. directory' = directory (Key obj)) ordered
                          in resolve mostRecentObjects)
                       else resolve [])))"

subsection \<open>getFunctionsEarliestLastModifiedDate\<close>

text \<open>\<open>err.providerError && err.providerError.statusCode === 403\<close>.\<close>

fun is_403 :: "error \<Rightarrow> bool" where
  "is_403 (ProviderError m c) = (c = Some 403)"
| "is_403 (ServerlessError m) = False"
| "is_403 (TypeError m) = False"

text \<open>
  The callback of \<open>results.reduce\<close>; the accumulator starts as \<open>null\<close> (\<open>None\<close>), and a
  \<open>Date\<close> is never falsy.
\<close>

definition reduce_min :: "int option \<Rightarrow> int \<Rightarrow> int option" where
  "reduce_min currentMin date =
     (case currentMin of
        None \<Rightarrow> Some date
      | Some m \<Rightarrow> if date < m then Some date else Some m)"

definition access_warning :: string where
  "access_warning =
     ''WARNING: Not authorized to perform: lambda:GetFunction for at least one of the lambda functions.''
     @ '' Deployment will not be skipped even if service files did not change. ''"

text \<open>
  One promise per function. The source sets the local variable
  \<open>couldNotAccessFunction\<close> in the handler of a rejection; here every promise fulfils
  with its date and with whether it has set the variable, and the variable read after
  \<open>Promise.all\<close> is the disjunction. \<open>service.functions\<close> is an object whose keys
  \<open>getAllFunctions\<close> returns and \<open>getFunction\<close> looks up, so the list of its entries
  is mapped over.
\<close>

definition getFunctionResult :: "env \<Rightarrow> string \<times> function_obj \<Rightarrow> (int \<times> bool) promise" where
  "getFunctionResult env = (\<lambda>(funName, functionObj).
     catchP
       (thenP
          (request (GetFunction (name functionObj))
             (\<lambda>h. Lambda_getFunction env h (name functionObj)))
          (\<lambda>res. resolve (res, False)))
       (\<lambda>err. resolve (0, is_403 err)))"

definition getFunctionsEarliestLastModifiedDate :: "env \<Rightarrow> int option promise" where
  "getFunctionsEarliestLastModifiedDate env =
     (let getFunctionResults = map (getFunctionResult env) (service_functions env)
      in thenP (allP getFunctionResults)
           (\<lambda>results.
              let couldNotAccessFunction = list_ex snd results
              in thenP
                   (if couldNotAccessFunction then cli_log access_warning else resolve ())
                   (\<lambda>_. resolve (foldl reduce_min None (map fst results)))))"

subsection \<open>getObjectMetadata\<close>

definition getObjectMetadata :: "env \<Rightarrow> s3_object list \<Rightarrow> head_object list promise" where
  "getObjectMetadata env objects =
     (if objects \<noteq> [] then
        (let headObjectObjects =
               map (\<lambda>obj. request (HeadObject (bucketName env) (Key obj))
                             (\<lambda>h. S3_headObject env h (bucketName env) (Key obj)))
                   objects
         in thenP (allP headObjectObjects) (\<lambda>result. resolve result))
      else resolve [])"

subsection \<open>checkIfDeploymentIsNecessary\<close>

text \<open>\<open>object.Metadata.filesha256 || ''''\<close>: the empty string is the only falsy string.\<close>

definition remoteHash :: "head_object \<Rightarrow> string" where
  "remoteHash object =
     (case Metadata object ''filesha256'' of
        None \<Rightarrow> ''''
      | Some v \<Rightarrow> if v = '''' then '''' else v)"

text \<open>
  \<open>object.LastModified && object.LastModified > funcLastModifiedDate\<close>: the comparison
  is numeric, and \<open>null\<close> converts to 0.
\<close>

definition to_number :: "int option \<Rightarrow> int" where
  "to_number d = (case d of None \<Rightarrow> 0 | Some t \<Rightarrow> t)"

definition changed_after :: "int option \<Rightarrow> head_object \<Rightarrow> bool" where
  "changed_after funcLastModifiedDate object =
     (case LastModified object of
        None \<Rightarrow> False
      | Some t \<Rightarrow> to_number funcLastModifiedDate < t)"

text \<open>
  The zip files to hash: the glob result, then the service's own artifact when one is
  configured (a non-empty string).
\<close>

definition zipFiles :: "env \<Rightarrow> string list" where
  "zipFiles env =
     (let serverlessDirPath = path_join env (servicePath env) ''.serverless''
      in globby_zip env serverlessDirPath @
         (case artifact env of
            None \<Rightarrow> []
          | Some a \<Rightarrow> if a = '''' then [] else [path_resolve env (servicePath env) a]))"

definition zipFilePaths :: "env \<Rightarrow> string list" where
  "zipFilePaths env =
     (let serverlessDirPath = path_join env (servicePath env) ''.serverless''
      in uniq (map (\<lambda>zipFile. path_resolve env serverlessDirPath zipFile) (zipFiles env)))"

definition set_shouldNotDeploy :: "bool \<Rightarrow> unit promise" where
  "set_shouldNotDeploy b = (\<lambda>s. (Inr (), s\<lparr>shouldNotDeploy := b\<rparr>))"

text \<open>\<open>_.isEqual(remoteHashes.sort(), localHashes.sort())\<close>.\<close>

definition areHashesEqual :: "string list \<Rightarrow> string list \<Rightarrow> bool" where
  "areHashesEqual remoteHashes localHashes = (sort remoteHashes = sort localHashes)"

text \<open>
  The callback that runs once every zip file is hashed. Both arrays are sorted in
  place, so the two last messages show them sorted.
\<close>

definition compareHashes ::
  "env \<Rightarrow> head_object list \<Rightarrow> int option \<Rightarrow> string list \<Rightarrow> string list \<Rightarrow> js_value promise" where
  "compareHashes env objects funcLastModifiedDate remoteHashes zipFileHashes =
     thenP (cli_log (''zipFileHashes: '' @ join '','' zipFileHashes)) (\<lambda>_.
       let localHashes = zipFileHashes @ [localCfHash env];
           changedAfterDeploy = list_ex (changed_after funcLastModifiedDate) objects;
           hashesEqual = areHashesEqual remoteHashes localHashes
       in if \<not> changedAfterDeploy \<and> hashesEqual then
            thenP (set_shouldNotDeploy True) (\<lambda>_.
            thenP (cli_log ''Service files not changed. Skipping deployment...'') (\<lambda>_.
            resolve Undefined))
          else
            thenP (cli_log ''NOT SKIPPING DEPLOYMENT'') (\<lambda>_.
            thenP (if changedAfterDeploy then
                     cli_log ''REASON: Objects have been changed AFTER functions last modifications (probably a failed deploy)''
                   else resolve ()) (\<lambda>_.
            thenP (if \<not> hashesEqual then
                     thenP (cli_log ''REASON: Hashes are not equal'') (\<lambda>_.
                     thenP (cli_log (''Remote hashes: '' @ join '','' (sort remoteHashes))) (\<lambda>_.
                     cli_log (''Local hashes: '' @ join '','' (sort localHashes))))
                   else resolve ()) (\<lambda>_.
            resolve Undefined))))"

text \<open>
  Reading a zip file and hashing it is one request to the file system, answered with the
  digest or with the error of \<open>readFile\<close>.
\<close>

definition zipFileHashesPromises :: "env \<Rightarrow> string promise list" where
  "zipFileHashesPromises env =
     map (\<lambda>zipFilePath. request (ReadFile zipFilePath)
                          (\<lambda>h. readFile_sha256 env h zipFilePath))
         (zipFilePaths env)"

definition checkIfDeploymentIsNecessary ::
  "env \<Rightarrow> head_object list \<Rightarrow> int option \<Rightarrow> js_value promise" where
  "checkIfDeploymentIsNecessary env objects funcLastModifiedDate =
     (if objects \<noteq> [] then
        (let remoteHashes = map remoteHash objects
         in thenP (cli_log ''IS DEPLOYMENT NECESSARY'') (\<lambda>_.
            thenP (cli_log (''zipFiles: '' @ join '','' (zipFiles env))) (\<lambda>_.
            thenP (cli_log (''zipFilePaths: '' @ join '','' (zipFilePaths env))) (\<lambda>_.
            thenP (allP (zipFileHashesPromises env))
              (compareHashes env objects funcLastModifiedDate remoteHashes)))))
      else resolve Undefined)"

subsection \<open>The log subscription filters\<close>

definition getLogicalIdFromFilterName :: "string \<Rightarrow> string option" where
  "getLogicalIdFromFilterName filterName' =
     (let split' = split CHR ''-'' filterName'
      in index split' (int (length split') - 2))"

record params =
  accountId :: string
  logGroupName :: string
  functionName :: string
  functionObj :: function_obj
  region :: string
  partition :: string
  logSubscriptionSerialNumber :: nat

text \<open>
  The trailing \<open>.catch(() => undefined)\<close> is attached to the promise that \<open>.then\<close>
  returns, so it handles a rejection of the describe request and a rejection of
  whatever the callback returns.
\<close>

definition fixLogGroupSubscriptionFilters :: "env \<Rightarrow> params \<Rightarrow> js_value promise" where
  "fixLogGroupSubscriptionFilters env ps =
     catchP
       (thenP
          (request (DescribeSubscriptionFilters (logGroupName ps))
             (\<lambda>h. describeSubscriptionFilters env h (logGroupName ps)))
          (\<lambda>response.
             case response of
               [] \<Rightarrow> resolve JsFalse
             | subscriptionFilter # _ \<Rightarrow>
                 (let filterName' = filterName subscriptionFilter;
                      oldDestinationArn = destinationArn subscriptionFilter;
                      newDestinationArn =
                        ''arn:'' @ partition ps @ '':lambda:'' @ region ps @ '':''
                          @ accountId ps @ '':function:'' @ name (functionObj ps);
                      oldLogicalId = getLogicalIdFromFilterName filterName';
                      newLogicalId =
                        getCloudWatchLogLogicalId env (functionName ps)
                          (logSubscriptionSerialNumber ps)
                  in if oldDestinationArn = newDestinationArn
                        \<and> oldLogicalId = Some newLogicalId
                     then resolve JsFalse
                     else thenP
                            (request (DeleteSubscriptionFilter (logGroupName ps) filterName')
                               (\<lambda>h. deleteSubscriptionFilter env h (logGroupName ps) filterName'))
                            (\<lambda>_. resolve DeleteResponse))))
       (\<lambda>_. resolve Undefined)"

text \<open>
  The promises of one function's events. The counter is the local variable
  \<open>logSubscriptionSerialNumber\<close>, incremented before each cloudwatchLog event is
  handled. An event without \<open>cloudwatchLog\<close>, or with the empty string for it, is
  skipped.
\<close>

fun eventPromises ::
  "env \<Rightarrow> account \<Rightarrow> string \<Rightarrow> function_obj \<Rightarrow> nat \<Rightarrow> event list \<Rightarrow> js_value promise list" where
  "eventPromises env acct fname fobj n [] = []"
| "eventPromises env acct fname fobj n (ev # evs) =
     (case cloudwatchLog ev of
        None \<Rightarrow> resolve Undefined # eventPromises env acct fname fobj n evs
      | Some cwl \<Rightarrow>
          if cwl = LogGroupName '''' then
            resolve Undefined # eventPromises env acct fname fobj n evs
          else
            (let logGroupName' =
                   (case cwl of
                      LogGroupObject g \<Rightarrow> strip_newlines g
                    | LogGroupName g \<Rightarrow> strip_newlines g)
             in case acct of Account accountId' partition' \<Rightarrow>
                  fixLogGroupSubscriptionFilters env
                    \<lparr>accountId = accountId', logGroupName = logGroupName',
                     functionName = fname, functionObj = fobj,
                     region = getRegion env, partition = partition',
                     logSubscriptionSerialNumber = Suc n\<rparr>
                  # eventPromises env acct fname fobj (Suc n) evs))"

definition checkLogGroupSubscriptionFilterResourceLimitExceeded :: "env \<Rightarrow> js_value promise" where
  "checkLogGroupSubscriptionFilterResourceLimitExceeded env =
     thenP (request GetAccountInfo (\<lambda>h. getAccountInfo env h))
       (\<lambda>account'.
          thenP
            (allP (map (\<lambda>(functionName', functionObj').
                          case events functionObj' of
                            None \<Rightarrow> resolve Undefined
                          | Some evs \<Rightarrow>
                              thenP (allP (eventPromises env account' functionName'
                                             functionObj' 0 evs))
                                (\<lambda>rs. resolve (Array rs)))
                       (service_functions env)))
            (\<lambda>rs. resolve (Array rs)))"

subsection \<open>checkForChanges\<close>

definition checkForChanges :: "env \<Rightarrow> options \<Rightarrow> js_value promise" where
  "checkForChanges env opts =
     thenP (set_shouldNotDeploy False) (\<lambda>_.
       if force opts then checkLogGroupSubscriptionFilterResourceLimitExceeded env
       else
         thenP
           (thenP
              (thenP (getMostRecentObjects env)
                 (\<lambda>objs. allP2 (getObjectMetadata env objs)
                                (getFunctionsEarliestLastModifiedDate env)))
              (\<lambda>(objMetadata, lastModifiedDate).
                 checkIfDeploymentIsNecessary env objMetadata lastModifiedDate))
           (\<lambda>_ s.
              if shouldNotDeploy s then resolve Undefined s
              else checkLogGroupSubscriptionFilterResourceLimitExceeded env s))"

subsection \<open>The necessity evaluation\<close>

text \<open>
  The first three steps of the chain in \<open>checkForChanges\<close> with \<open>force\<close> unset: the
  listing, the metadata and function dates, and the comparison.
\<close>

definition necessityEvaluation :: "env \<Rightarrow> js_value promise" where
  "necessityEvaluation env =
     thenP
       (thenP (getMostRecentObjects env)
          (\<lambda>objs. allP2 (getObjectMetadata env objs)
                         (getFunctionsEarliestLastModifiedDate env)))
       (\<lambda>(objMetadata, lastModifiedDate).
          checkIfDeploymentIsNecessary env objMetadata lastModifiedDate)"

text \<open>
  The callback of \<open>getAccountInfo().then\<close> in
  \<open>checkLogGroupSubscriptionFilterResourceLimitExceeded\<close>.
\<close>

abbreviation reconcileFunctions :: "env \<Rightarrow> account \<Rightarrow> js_value promise" where
  "reconcileFunctions env account' \<equiv>
     thenP
       (allP (map (\<lambda>(functionName', functionObj').
                     case events functionObj' of
                       None \<Rightarrow> resolve Undefined
                     | Some evs \<Rightarrow>
                         thenP (allP (eventPromises env account' functionName'
                                        functionObj' 0 evs))
                           (\<lambda>rs. resolve (Array rs)))
                  (service_functions env)))
       (\<lambda>rs. resolve (Array rs))"

subsection \<open>What a promise may change\<close>

text \<open>
  \<open>steps R p\<close>: running \<open>p\<close> from any state leads to a state related to it by \<open>R\<close>.
  The three relations used: a fetch keeps the flag and issues no \<open>getAccountInfo\<close>
  request; the evaluation issues no \<open>getAccountInfo\<close> request; the reconciliation keeps
  the flag and the log and issues only requests about subscription filters.
\<close>

definition steps :: "(state \<Rightarrow> state \<Rightarrow> bool) \<Rightarrow> 'a promise \<Rightarrow> bool" where
  "steps R p = (\<forall>s. R s (snd (p s)))"

definition fetches :: "state \<Rightarrow> state \<Rightarrow> bool" where
  "fetches s s' =
     (shouldNotDeploy s' = shouldNotDeploy s
      \<and> (\<exists>cs. calls s' = calls s @ cs \<and> GetAccountInfo \<notin> set cs))"

definition evaluates :: "state \<Rightarrow> state \<Rightarrow> bool" where
  "evaluates s s' = (\<exists>cs. calls s' = calls s @ cs \<and> GetAccountInfo \<notin> set cs)"

definition is_filter_call :: "call \<Rightarrow> bool" where
  "is_filter_call c =
     (case c of
        DescribeSubscriptionFilters g \<Rightarrow> True
      | DeleteSubscriptionFilter g f \<Rightarrow> True
      | _ \<Rightarrow> False)"

definition reconciles :: "state \<Rightarrow> state \<Rightarrow> bool" where
  "reconciles s s' =
     (shouldNotDeploy s' = shouldNotDeploy s \<and> logged s' = logged s
      \<and> (\<exists>cs. calls s' = calls s @ cs \<and> list_all is_filter_call cs))"

subsection \<open>A sample service\<close>

text \<open>
  One function with one cloudwatchLog event. The bucket holds two deployments; the
  later one matches the local files. The log group has a filter of another function,
  and the provider refuses to delete it.
\<close>

definition sample_env :: env where
  "sample_env =
     \<lparr>bucketName = ''bucket'',
      getDeploymentPrefix = ''serverless'',
      service = ''svc'',
      getStage = ''dev'',
      getStackName = ''svc-dev'',
      getRegion = ''us-east-1'',
      service_functions =
        [(''hello'',
          \<lparr>name = ''svc-dev-hello'',
           events = Some [\<lparr>cloudwatchLog = Some (LogGroupName ''/aws/lambda/other'')\<rparr>]\<rparr>)],
      getCloudWatchLogLogicalId = (\<lambda>f n. ''HelloLogsSubscriptionFilterCloudWatchLog1''),
      servicePath = ''/srv'',
      artifact = None,
      path_join = (\<lambda>a b. a @ ''/'' @ b),
      path_resolve = (\<lambda>a b. a @ ''/'' @ b),
      globby_zip = (\<lambda>d. [''hello.zip'']),
      localCfHash = ''T'',
      readFile_sha256 = (\<lambda>h p. Inr ''H''),
      S3_listObjectsV2 = (\<lambda>h b p.
        Inr (Some \<lparr>Contents = Some
          [\<lparr>Key = ''serverless/svc/dev/1/hello.zip'', Size = 10\<rparr>,
           \<lparr>Key = ''serverless/svc/dev/2/hello.zip'', Size = 10\<rparr>,
           \<lparr>Key = ''serverless/svc/dev/2/template.json'', Size = 5\<rparr>]\<rparr>)),
      S3_headObject = (\<lambda>h b k.
        Inr \<lparr>Metadata =
               [''filesha256'' \<mapsto> (if k = ''serverless/svc/dev/2/hello.zip'' then ''H'' else ''T'')],
             LastModified = Some 100\<rparr>),
      Lambda_getFunction = (\<lambda>h n. Inr 200),
      getAccountInfo = (\<lambda>h. Inr (Account ''123'' ''aws'')),
      describeSubscriptionFilters = (\<lambda>h g.
        Inr [\<lparr>filterName = ''svc-dev-OldLogsSubscriptionFilterCloudWatchLog1-XYZ'',
              destinationArn = ''arn:aws:lambda:us-east-1:123:function:svc-dev-old''\<rparr>]),
      deleteSubscriptionFilter = (\<lambda>h g f. Inl (ProviderError ''Rate exceeded'' (Some 400)))\<rparr>"

definition sample_state :: state where
  "sample_state = \<lparr>shouldNotDeploy = False, logged = [], calls = []\<rparr>"

subsection \<open>The answers to the function scan\<close>

text \<open>
  What the provider answers to the \<open>getFunction\<close> requests of one scan, given the
  requests issued before it; the date a function counts with; and whether an answer is
  an authorization failure.
\<close>

fun getFunction_answers :: "env \<Rightarrow> call list \<Rightarrow> (string \<times> function_obj) list \<Rightarrow> (error + int) list" where
  "getFunction_answers env h [] = []"
| "getFunction_answers env h (f # fs) =
     Lambda_getFunction env h (name (snd f))
     # getFunction_answers env (h @ [GetFunction (name (snd f))]) fs"

definition date_of :: "error + int \<Rightarrow> int" where
  "date_of a = (case a of Inl e \<Rightarrow> 0 | Inr t \<Rightarrow> t)"

definition denied :: "error + int \<Rightarrow> bool" where
  "denied a = (case a of Inl e \<Rightarrow> is_403 e | Inr t \<Rightarrow> False)"

definition three_functions_env :: env where
  "three_functions_env =
     sample_env
       \<lparr>service_functions :=
          [(''a'', \<lparr>name = ''svc-dev-a'', events = None\<rparr>),
           (''b'', \<lparr>name = ''svc-dev-b'', events = None\<rparr>),
           (''c'', \<lparr>name = ''svc-dev-c'', events = None\<rparr>)],
        Lambda_getFunction := (\<lambda>h n.
          if n = ''svc-dev-b'' then Inl (ProviderError ''AccessDenied'' (Some 403))
          else if n = ''svc-dev-a'' then Inr 500 else Inr 300)\<rparr>"

subsection \<open>The listing request\<close>

text \<open>
  The prefix \<open>getMostRecentObjects\<close> lists, the objects a listing answer holds (none
  when the answer or its \<open>Contents\<close> is missing), and two services whose listing is
  rejected.
\<close>

definition listing_prefix :: "env \<Rightarrow> string" where
  "listing_prefix env = getDeploymentPrefix env @ ''/'' @ service env @ ''/'' @ getStage env"

definition listed :: "list_output option \<Rightarrow> s3_object list" where
  "listed result =
     (case result of
        None \<Rightarrow> []
      | Some res \<Rightarrow> (case Contents res of None \<Rightarrow> [] | Some objects \<Rightarrow> objects))"

definition no_bucket_env :: env where
  "no_bucket_env =
     sample_env\<lparr>S3_listObjectsV2 := (\<lambda>h b p.
       Inl (ProviderError ''NoSuchBucket: The specified bucket does not exist'' (Some 404)))\<rparr>"

definition throttled_env :: env where
  "throttled_env =
     sample_env\<lparr>S3_listObjectsV2 := (\<lambda>h b p.
       Inl (ProviderError ''SlowDown: Please reduce your request rate.'' (Some 503)))\<rparr>"

subsection \<open>Sample log groups\<close>

text \<open>
  The parameters \<open>checkLogGroupSubscriptionFilterResourceLimitExceeded\<close> passes for
  the one event of the sample service, a service whose log group does not exist yet, and
  a service whose log group already has the filter this deployment would create.
\<close>

definition sample_params :: params where
  "sample_params =
     \<lparr>accountId = ''123'', logGroupName = ''/aws/lambda/other'', functionName = ''hello'',
      functionObj = \<lparr>name = ''svc-dev-hello'',
        events = Some [\<lparr>cloudwatchLog = Some (LogGroupName ''/aws/lambda/other'')\<rparr>]\<rparr>,
      region = ''us-east-1'', partition = ''aws'', logSubscriptionSerialNumber = 1\<rparr>"

definition no_log_group_env :: env where
  "no_log_group_env =
     sample_env\<lparr>describeSubscriptionFilters := (\<lambda>h g.
       Inl (ProviderError ''The specified log group does not exist.'' (Some 400)))\<rparr>"

definition up_to_date_env :: env where
  "up_to_date_env =
     sample_env\<lparr>describeSubscriptionFilters := (\<lambda>h g.
       Inr [\<lparr>filterName = ''svc-dev-HelloLogsSubscriptionFilterCloudWatchLog1-ABC'',
             destinationArn = ''arn:aws:lambda:us-east-1:123:function:svc-dev-hello''\<rparr>])\<rparr>"

subsection \<open>The function/event pairs\<close>

text \<open>
  The log-subscription binding of an event: the name of its log group with the newlines
  stripped, or none when the event has no \<open>cloudwatchLog\<close> (or the empty string for it).
  The serial number of the \<open>i\<close>-th event of a function is the number of events with a
  binding up to and including it. Three events of one function, a service whose log
  group has no filter, and a service whose provider deletes filters.
\<close>

definition binding :: "event \<Rightarrow> string option" where
  "binding ev =
     (case cloudwatchLog ev of
        None \<Rightarrow> None
      | Some (LogGroupName g) \<Rightarrow> if g = [] then None else Some (strip_newlines g)
      | Some (LogGroupObject g) \<Rightarrow> Some (strip_newlines g))"

definition serial :: "event list \<Rightarrow> nat \<Rightarrow> nat" where
  "serial evs i = length (filter (\<lambda>ev. binding ev \<noteq> None) (take (Suc i) evs))"

definition three_events :: "event list" where
  "three_events =
     [\<lparr>cloudwatchLog = None\<rparr>,
      \<lparr>cloudwatchLog = Some (LogGroupName ''/aws/lambda/other'')\<rparr>,
      \<lparr>cloudwatchLog = Some (LogGroupObject (''/aws/lambda/third'' @ [CHR 0x0A]))\<rparr>]"

definition no_filter_env :: env where
  "no_filter_env = sample_env\<lparr>describeSubscriptionFilters := (\<lambda>h g. Inr [])\<rparr>"

definition deleting_env :: env where
  "deleting_env = sample_env\<lparr>deleteSubscriptionFilter := (\<lambda>h g f. Inr ())\<rparr>"

section \<open>Properties\<close>

subsection \<open>The logical id in a filter name\<close>

lemma split_not_Nil: "split sep s \<noteq> []"
  by (induction s) (auto split: list.splits)

lemma split_append_sep: "split sep (a @ sep # r) = split sep a @ split sep r"
proof (induction a)
  case Nil
  then show ?case by simp
next
  case (Cons c a)
  obtain w ws where ws: "split sep a = w # ws"
    using split_not_Nil [of sep a] by (cases "split sep a") auto
  with Cons show ?case by simp
qed

lemma split_no_sep: "sep \<notin> set s \<Longrightarrow> split sep s = [s]"
  by (induction s) auto

lemma index_append_length: "index (xs @ [b, c]) (int (length (xs @ [b, c])) - 2) = Some b"
  by (simp add: index_def nth_append)

text \<open>
  C9. A filter name with at least two hyphens is \<open>a-b-c\<close> where \<open>b\<close> and \<open>c\<close> are its
  last two hyphen-delimited segments (so neither contains a hyphen, while \<open>a\<close> may);
  \<open>getLogicalIdFromFilterName\<close> returns \<open>b\<close>. In particular it returns \<open>myFunc\<close> for
  \<open>mystack-myFunc-AB12CD\<close> and for \<open>my-stack-myFunc-AB12CD\<close>.
\<close>

theorem getLogicalIdFromFilterName_second_to_last:
  "(\<forall>a b c. CHR ''-'' \<notin> set b \<and> CHR ''-'' \<notin> set c \<longrightarrow>
      getLogicalIdFromFilterName (a @ ''-'' @ b @ ''-'' @ c) = Some b)
   \<and> getLogicalIdFromFilterName ''mystack-myFunc-AB12CD'' = Some ''myFunc''
   \<and> getLogicalIdFromFilterName ''my-stack-myFunc-AB12CD'' = Some ''myFunc''"
proof -
  have gen: "getLogicalIdFromFilterName (a @ ''-'' @ b @ ''-'' @ c) = Some b"
    if "CHR ''-'' \<notin> set b" "CHR ''-'' \<notin> set c" for a b c
  proof -
    have "split CHR ''-'' (a @ ''-'' @ b @ ''-'' @ c) = split CHR ''-'' a @ [b, c]"
      using that by (simp add: split_append_sep split_no_sep)
    then show ?thesis
      unfolding getLogicalIdFromFilterName_def Let_def
      using index_append_length [of "split CHR ''-'' a" b c] by simp
  qed
  have e1: "getLogicalIdFromFilterName (''mystack'' @ ''-'' @ ''myFunc'' @ ''-'' @ ''AB12CD'')
            = Some ''myFunc''"
    by (rule gen) simp_all
  have e2: "getLogicalIdFromFilterName (''my-stack'' @ ''-'' @ ''myFunc'' @ ''-'' @ ''AB12CD'')
            = Some ''myFunc''"
    by (rule gen) simp_all
  from gen e1 e2 show ?thesis by simp
qed

theorem getLogicalIdFromFilterName_witness:
  "CHR ''-'' \<notin> set ''myFunc'' \<and> CHR ''-'' \<notin> set ''AB12CD''
   \<and> getLogicalIdFromFilterName (''a-b-c'' @ ''-'' @ ''myFunc'' @ ''-'' @ ''AB12CD'')
       = Some ''myFunc''"
proof -
  have "CHR ''-'' \<notin> set ''myFunc'' \<and> CHR ''-'' \<notin> set ''AB12CD'' \<longrightarrow>
        getLogicalIdFromFilterName (''a-b-c'' @ ''-'' @ ''myFunc'' @ ''-'' @ ''AB12CD'')
          = Some ''myFunc''"
    using getLogicalIdFromFilterName_second_to_last by blast
  then show ?thesis by simp
qed

subsection \<open>The comparison of the hashes\<close>

text \<open>
  C3. The comparison of the sorted hash lists succeeds exactly when the remote and the
  local list are equal as multisets, that is when one is a permutation of the other:
  every hash occurs as often in one as in the other, in any order.
\<close>

theorem areHashesEqual_iff_mset:
  "(areHashesEqual remoteHashes localHashes \<longleftrightarrow> mset remoteHashes = mset localHashes)
   \<and> (areHashesEqual remoteHashes localHashes \<longleftrightarrow>
        (\<forall>h. count (mset remoteHashes) h = count (mset localHashes) h))"
proof -
  have "areHashesEqual remoteHashes localHashes \<longleftrightarrow> mset remoteHashes = mset localHashes"
    unfolding areHashesEqual_def
    by (metis mset_sort properties_for_sort sorted_sort)
  then show ?thesis by (simp add: multiset_eq_iff)
qed

text \<open>
  Two local artifacts with the hash \<open>h\<close> and the template hash \<open>t\<close>: the remote list
  matches with \<open>h\<close> twice, in any order, and not with \<open>h\<close> once.
\<close>

theorem areHashesEqual_twice_witness:
  "areHashesEqual [''h'', ''t'', ''h''] [''h'', ''h'', ''t'']
   \<and> \<not> areHashesEqual [''t'', ''h''] [''h'', ''h'', ''t'']"
  using areHashesEqual_iff_mset [of "[''h'', ''t'', ''h'']" "[''h'', ''h'', ''t'']"]
    areHashesEqual_iff_mset [of "[''t'', ''h'']" "[''h'', ''h'', ''t'']"]
  by simp

subsection \<open>Running promises\<close>

lemma allP_Cons_fst:
  "fst (allP (p # ps) s) =
     (case fst (p s) of
        Inl e \<Rightarrow> Inl e
      | Inr x \<Rightarrow> (case fst (allP ps (snd (p s))) of Inl e' \<Rightarrow> Inl e' | Inr xs \<Rightarrow> Inr (x # xs)))"
  by (simp add: split_beta)

lemma allP_Cons_snd: "snd (allP (p # ps) s) = snd (allP ps (snd (p s)))"
  by (simp add: split_beta)

lemma allP_Nil_run: "allP [] s = (Inr [], s)"
  by (simp add: resolve_def)

lemma allP_requests_snd:
  "snd (allP (map (\<lambda>x. request (c x) (a x)) xs) s) = s\<lparr>calls := calls s @ map c xs\<rparr>"
proof (induction xs arbitrary: s)
  case Nil
  then show ?case by (simp add: resolve_def)
next
  case (Cons x xs)
  show ?case
    unfolding list.map allP_Cons_snd Cons.IH by (simp add: request_def)
qed

lemma allP_requests_fst_cong:
  "calls s1 = calls s2 \<Longrightarrow>
   fst (allP (map (\<lambda>x. request (c x) (a x)) xs) s1) = fst (allP (map (\<lambda>x. request (c x) (a x)) xs) s2)"
proof (induction xs arbitrary: s1 s2)
  case Nil
  then show ?case by (simp add: resolve_def)
next
  case (Cons x xs)
  have rest: "fst (allP (map (\<lambda>x. request (c x) (a x)) xs) (snd (request (c x) (a x) s1)))
      = fst (allP (map (\<lambda>x. request (c x) (a x)) xs) (snd (request (c x) (a x) s2)))"
    by (rule Cons.IH) (simp add: Cons.prems request_def)
  have first: "fst (request (c x) (a x) s1) = fst (request (c x) (a x) s2)"
    by (simp add: Cons.prems request_def)
  show ?case
    unfolding list.map allP_Cons_fst rest first by (rule refl)
qed

lemma zipFileHashes_snd:
  "snd (allP (zipFileHashesPromises env) s) = s\<lparr>calls := calls s @ map ReadFile (zipFilePaths env)\<rparr>"
  unfolding zipFileHashesPromises_def by (rule allP_requests_snd)

lemma zipFileHashes_fst_cong:
  "calls s1 = calls s2 \<Longrightarrow>
   fst (allP (zipFileHashesPromises env) s1) = fst (allP (zipFileHashesPromises env) s2)"
  unfolding zipFileHashesPromises_def by (rule allP_requests_fst_cong)

lemma shouldNotDeploy_compareHashes:
  "shouldNotDeploy (snd (compareHashes env objects d remoteHashes hs s)) =
     (shouldNotDeploy s \<or>
      (\<not> list_ex (changed_after d) objects \<and> areHashesEqual remoteHashes (hs @ [localCfHash env])))"
  by (simp add: compareHashes_def thenP_def cli_log_def resolve_def set_shouldNotDeploy_def Let_def)

lemma fst_compareHashes: "fst (compareHashes env objects d remoteHashes hs s) = Inr Undefined"
  by (simp add: compareHashes_def thenP_def cli_log_def resolve_def set_shouldNotDeploy_def Let_def)

lemma calls_compareHashes: "calls (snd (compareHashes env objects d remoteHashes hs s)) = calls s"
  by (simp add: compareHashes_def thenP_def cli_log_def resolve_def set_shouldNotDeploy_def Let_def)

lemma checkIf_unfold:
  "objects \<noteq> [] \<Longrightarrow> checkIfDeploymentIsNecessary env objects d s =
     thenP (allP (zipFileHashesPromises env)) (compareHashes env objects d (map remoteHash objects))
       (s\<lparr>logged := logged s @ [''IS DEPLOYMENT NECESSARY'',
      ''zipFiles: '' @ join '','' (zipFiles env), ''zipFilePaths: '' @ join '','' (zipFilePaths env)]\<rparr>)"
  by (simp add: checkIfDeploymentIsNecessary_def thenP_def cli_log_def Let_def)

lemma checkIf_ok:
  assumes "objects \<noteq> []" and "fst (allP (zipFileHashesPromises env) s) = Inr hs"
  shows "fst (checkIfDeploymentIsNecessary env objects d s) = Inr Undefined"
    and "shouldNotDeploy (snd (checkIfDeploymentIsNecessary env objects d s)) =
     (shouldNotDeploy s \<or>
      (\<not> list_ex (changed_after d) objects \<and> areHashesEqual (map remoteHash objects) (hs @ [localCfHash env])))"
    and "calls (snd (checkIfDeploymentIsNecessary env objects d s)) = calls s @ map ReadFile (zipFilePaths env)"
proof -
  let ?s = "s\<lparr>logged := logged s @ [''IS DEPLOYMENT NECESSARY'',
      ''zipFiles: '' @ join '','' (zipFiles env), ''zipFilePaths: '' @ join '','' (zipFilePaths env)]\<rparr>"
  have f: "fst (allP (zipFileHashesPromises env) ?s) = Inr hs"
    using zipFileHashes_fst_cong [of ?s s env] assms(2) by simp
  obtain s' where r: "allP (zipFileHashesPromises env) ?s = (Inr hs, s')"
    using f by (cases "allP (zipFileHashesPromises env) ?s") auto
  have s': "s' = ?s\<lparr>calls := calls ?s @ map ReadFile (zipFilePaths env)\<rparr>"
    using zipFileHashes_snd [of env ?s] r by simp
  have u: "checkIfDeploymentIsNecessary env objects d s = compareHashes env objects d (map remoteHash objects) hs s'"
    using assms(1) r by (simp add: checkIf_unfold thenP_def)
  show "fst (checkIfDeploymentIsNecessary env objects d s) = Inr Undefined"
    by (simp add: u fst_compareHashes)
  show "shouldNotDeploy (snd (checkIfDeploymentIsNecessary env objects d s)) =
     (shouldNotDeploy s \<or>
      (\<not> list_ex (changed_after d) objects \<and> areHashesEqual (map remoteHash objects) (hs @ [localCfHash env])))"
    by (simp add: u shouldNotDeploy_compareHashes s')
  show "calls (snd (checkIfDeploymentIsNecessary env objects d s)) = calls s @ map ReadFile (zipFilePaths env)"
    by (simp add: u calls_compareHashes s')
qed

lemma checkIf_fail:
  assumes "objects \<noteq> []" and "fst (allP (zipFileHashesPromises env) s) = Inl e"
  shows "fst (checkIfDeploymentIsNecessary env objects d s) = Inl e"
    and "shouldNotDeploy (snd (checkIfDeploymentIsNecessary env objects d s)) = shouldNotDeploy s"
    and "calls (snd (checkIfDeploymentIsNecessary env objects d s)) = calls s @ map ReadFile (zipFilePaths env)"
proof -
  let ?s = "s\<lparr>logged := logged s @ [''IS DEPLOYMENT NECESSARY'',
      ''zipFiles: '' @ join '','' (zipFiles env), ''zipFilePaths: '' @ join '','' (zipFilePaths env)]\<rparr>"
  have f: "fst (allP (zipFileHashesPromises env) ?s) = Inl e"
    using zipFileHashes_fst_cong [of ?s s env] assms(2) by simp
  obtain s' where r: "allP (zipFileHashesPromises env) ?s = (Inl e, s')"
    using f by (cases "allP (zipFileHashesPromises env) ?s") auto
  have s': "s' = ?s\<lparr>calls := calls ?s @ map ReadFile (zipFilePaths env)\<rparr>"
    using zipFileHashes_snd [of env ?s] r by simp
  have u: "checkIfDeploymentIsNecessary env objects d s = (Inl e, s')"
    using assms(1) r by (simp add: checkIf_unfold thenP_def)
  show "fst (checkIfDeploymentIsNecessary env objects d s) = Inl e"
    by (simp add: u)
  show "shouldNotDeploy (snd (checkIfDeploymentIsNecessary env objects d s)) = shouldNotDeploy s"
    by (simp add: u s')
  show "calls (snd (checkIfDeploymentIsNecessary env objects d s)) = calls s @ map ReadFile (zipFilePaths env)"
    by (simp add: u s')
qed

lemma checkIf_empty: "checkIfDeploymentIsNecessary env [] d s = (Inr Undefined, s)"
  by (simp add: checkIfDeploymentIsNecessary_def resolve_def)

subsection \<open>Frames of the methods\<close>

lemma stepsD: "steps R p \<Longrightarrow> R s (snd (p s))"
  by (simp add: steps_def)

lemma steps_resolve: "reflp R \<Longrightarrow> steps R (resolve x)"
  by (simp add: steps_def resolve_def reflp_def)

lemma steps_reject: "reflp R \<Longrightarrow> steps R (reject e)"
  by (simp add: steps_def reject_def reflp_def)

lemma steps_thenP:
  assumes "transp R" and "steps R p" and "\<And>x. steps R (f x)"
  shows "steps R (thenP p f)"
proof (unfold steps_def, rule allI)
  fix s
  have a: "R s (snd (p s))" using assms(2) by (rule stepsD)
  show "R s (snd (thenP p f s))"
  proof (cases "fst (p s)")
    case (Inl e)
    then have "thenP p f s = (Inl e, snd (p s))"
      by (cases "p s") (simp add: thenP_def)
    with a show ?thesis by simp
  next
    case (Inr x)
    then have "thenP p f s = f x (snd (p s))"
      by (cases "p s") (simp add: thenP_def)
    moreover have "R (snd (p s)) (snd (f x (snd (p s))))"
      using assms(3) by (rule stepsD)
    ultimately show ?thesis
      using a assms(1) by (auto elim: transpE)
  qed
qed

lemma steps_catchP:
  assumes "transp R" and "steps R p" and "\<And>e. steps R (h e)"
  shows "steps R (catchP p h)"
proof (unfold steps_def, rule allI)
  fix s
  have a: "R s (snd (p s))" using assms(2) by (rule stepsD)
  show "R s (snd (catchP p h s))"
  proof (cases "fst (p s)")
    case (Inr x)
    then have "catchP p h s = (Inr x, snd (p s))"
      by (cases "p s") (simp add: catchP_def)
    with a show ?thesis by simp
  next
    case (Inl e)
    then have "catchP p h s = h e (snd (p s))"
      by (cases "p s") (simp add: catchP_def)
    moreover have "R (snd (p s)) (snd (h e (snd (p s))))"
      using assms(3) by (rule stepsD)
    ultimately show ?thesis
      using a assms(1) by (auto elim: transpE)
  qed
qed

lemma steps_allP:
  assumes "reflp R" and "transp R" and "\<And>p. p \<in> set ps \<Longrightarrow> steps R p"
  shows "steps R (allP ps)"
  using assms(3)
proof (induction ps)
  case Nil
  show ?case using assms(1) by (simp add: steps_resolve)
next
  case (Cons p ps)
  have p: "steps R p" and ps: "steps R (allP ps)"
    using Cons by simp_all
  show ?case
  proof (unfold steps_def, rule allI)
    fix s
    have "R s (snd (p s))" using p by (rule stepsD)
    moreover have "R (snd (p s)) (snd (allP ps (snd (p s))))" using ps by (rule stepsD)
    ultimately show "R s (snd (allP (p # ps) s))"
      unfolding allP_Cons_snd using assms(2) by (auto elim: transpE)
  qed
qed

lemma steps_allP2:
  assumes "transp R" and "steps R p" and "steps R q"
  shows "steps R (allP2 p q)"
proof (unfold steps_def, rule allI)
  fix s
  have "R s (snd (p s))" using assms(2) by (rule stepsD)
  moreover have "R (snd (p s)) (snd (q (snd (p s))))" using assms(3) by (rule stepsD)
  moreover have "snd (allP2 p q s) = snd (q (snd (p s)))"
    by (simp add: allP2_def split_beta)
  ultimately show "R s (snd (allP2 p q s))"
    using assms(1) by (auto elim: transpE)
qed

lemma reflp_fetches: "reflp fetches"
  by (simp add: reflp_def fetches_def)

lemma transp_fetches: "transp fetches"
  unfolding transp_def fetches_def
proof (intro allI impI)
  fix x y z
  assume "shouldNotDeploy y = shouldNotDeploy x \<and>
       (\<exists>cs. calls y = calls x @ cs \<and> GetAccountInfo \<notin> set cs)"
    and "shouldNotDeploy z = shouldNotDeploy y \<and>
       (\<exists>cs. calls z = calls y @ cs \<and> GetAccountInfo \<notin> set cs)"
  then obtain cs cs' where "calls y = calls x @ cs" "GetAccountInfo \<notin> set cs"
    "calls z = calls y @ cs'" "GetAccountInfo \<notin> set cs'"
    and e: "shouldNotDeploy z = shouldNotDeploy x"
    by auto
  then have "calls z = calls x @ (cs @ cs') \<and> GetAccountInfo \<notin> set (cs @ cs')"
    by simp
  with e show "shouldNotDeploy z = shouldNotDeploy x \<and>
       (\<exists>cs. calls z = calls x @ cs \<and> GetAccountInfo \<notin> set cs)"
    by blast
qed

lemma reflp_reconciles: "reflp reconciles"
  by (simp add: reflp_def reconciles_def)

lemma transp_reconciles: "transp reconciles"
  unfolding transp_def reconciles_def
proof (intro allI impI)
  fix x y z
  assume "shouldNotDeploy y = shouldNotDeploy x \<and> logged y = logged x \<and>
       (\<exists>cs. calls y = calls x @ cs \<and> list_all is_filter_call cs)"
    and "shouldNotDeploy z = shouldNotDeploy y \<and> logged z = logged y \<and>
       (\<exists>cs. calls z = calls y @ cs \<and> list_all is_filter_call cs)"
  then obtain cs cs' where "calls y = calls x @ cs" "list_all is_filter_call cs"
    "calls z = calls y @ cs'" "list_all is_filter_call cs'"
    and e: "shouldNotDeploy z = shouldNotDeploy x" "logged z = logged x"
    by auto
  then have "calls z = calls x @ (cs @ cs') \<and> list_all is_filter_call (cs @ cs')"
    by simp
  with e show "shouldNotDeploy z = shouldNotDeploy x \<and> logged z = logged x \<and>
       (\<exists>cs. calls z = calls x @ cs \<and> list_all is_filter_call cs)"
    by blast
qed

lemma reflp_evaluates: "reflp evaluates"
  by (simp add: reflp_def evaluates_def)

lemma transp_evaluates: "transp evaluates"
  unfolding transp_def evaluates_def
proof (intro allI impI)
  fix x y z
  assume "\<exists>cs. calls y = calls x @ cs \<and> GetAccountInfo \<notin> set cs"
    and "\<exists>cs. calls z = calls y @ cs \<and> GetAccountInfo \<notin> set cs"
  then obtain cs cs' where "calls y = calls x @ cs" "GetAccountInfo \<notin> set cs"
    "calls z = calls y @ cs'" "GetAccountInfo \<notin> set cs'"
    by auto
  then have "calls z = calls x @ (cs @ cs') \<and> GetAccountInfo \<notin> set (cs @ cs')"
    by simp
  then show "\<exists>cs. calls z = calls x @ cs \<and> GetAccountInfo \<notin> set cs"
    by blast
qed

lemma fetches_request: "c \<noteq> GetAccountInfo \<Longrightarrow> steps fetches (request c a)"
  by (simp add: steps_def fetches_def request_def)

lemma fetches_cli_log: "steps fetches (cli_log m)"
  by (simp add: steps_def fetches_def cli_log_def)

lemma reconciles_resolve: "steps reconciles (resolve x)"
  by (rule steps_resolve) (rule reflp_reconciles)

lemma fetches_resolve: "steps fetches (resolve x)"
  by (rule steps_resolve) (rule reflp_fetches)

lemma evaluates_resolve: "steps evaluates (resolve x)"
  by (rule steps_resolve) (rule reflp_evaluates)

lemma fetches_evaluates: "steps fetches p \<Longrightarrow> steps evaluates p"
  by (simp add: steps_def fetches_def evaluates_def)

lemma reconciles_request: "is_filter_call c \<Longrightarrow> steps reconciles (request c a)"
  by (simp add: steps_def reconciles_def request_def)

lemma evaluates_request: "c \<noteq> GetAccountInfo \<Longrightarrow> steps evaluates (request c a)"
  by (simp add: steps_def evaluates_def request_def)

lemma evaluates_cli_log: "steps evaluates (cli_log m)"
  by (simp add: steps_def evaluates_def cli_log_def)

lemma evaluates_set_shouldNotDeploy: "steps evaluates (set_shouldNotDeploy b)"
  by (simp add: steps_def evaluates_def set_shouldNotDeploy_def)


lemma fetches_getMostRecentObjects: "steps fetches (getMostRecentObjects env)"
  unfolding getMostRecentObjects_def Let_def
  by (intro steps_thenP steps_catchP transp_fetches fetches_request)
     (auto intro: fetches_resolve steps_reject reflp_fetches split: option.splits)

lemma fetches_getObjectMetadata: "steps fetches (getObjectMetadata env objs)"
  unfolding getObjectMetadata_def Let_def
  by (auto intro!: steps_thenP steps_allP transp_fetches reflp_fetches fetches_request
        fetches_resolve)

lemma fetches_getFunctionResult: "steps fetches (getFunctionResult env f)"
  unfolding getFunctionResult_def split_beta
  by (intro steps_thenP steps_catchP transp_fetches fetches_request fetches_resolve) simp

lemma fetches_getFunctionsEarliest: "steps fetches (getFunctionsEarliestLastModifiedDate env)"
  unfolding getFunctionsEarliestLastModifiedDate_def Let_def
  by (auto intro!: steps_thenP steps_allP transp_fetches reflp_fetches fetches_cli_log
        fetches_resolve fetches_getFunctionResult)

lemma evaluates_compareHashes: "steps evaluates (compareHashes env objects d rs hs)"
  unfolding compareHashes_def Let_def
  by (auto intro!: steps_thenP transp_evaluates evaluates_cli_log evaluates_resolve
        evaluates_set_shouldNotDeploy)

lemma evaluates_checkIf: "steps evaluates (checkIfDeploymentIsNecessary env objects d)"
  unfolding checkIfDeploymentIsNecessary_def Let_def zipFileHashesPromises_def
  by (auto intro!: steps_thenP steps_allP transp_evaluates reflp_evaluates evaluates_cli_log
        evaluates_resolve evaluates_request evaluates_compareHashes)

lemma reconciles_fix: "steps reconciles (fixLogGroupSubscriptionFilters env ps)"
  unfolding fixLogGroupSubscriptionFilters_def Let_def
  by (auto intro!: steps_thenP steps_catchP transp_reconciles reconciles_request
        reconciles_resolve simp: is_filter_call_def split: list.splits)

lemma reconciles_eventPromises:
  "p \<in> set (eventPromises env acct fname fobj n evs) \<Longrightarrow> steps reconciles p"
proof (induction evs arbitrary: n)
  case Nil
  then show ?case by simp
next
  case (Cons ev evs)
  then show ?case
    by (cases acct)
       (auto simp: Let_def reconciles_resolve reconciles_fix split: option.splits if_splits)
qed

lemma reconciles_events:
  "steps reconciles
     (case events fobj of
        None \<Rightarrow> resolve Undefined
      | Some evs \<Rightarrow>
          thenP (allP (eventPromises env acct fname fobj 0 evs)) (\<lambda>rs. resolve (Array rs)))"
proof (cases "events fobj")
  case None
  then show ?thesis by (simp add: reconciles_resolve)
next
  case (Some evs)
  have "steps reconciles (allP (eventPromises env acct fname fobj 0 evs))"
    by (rule steps_allP [OF reflp_reconciles transp_reconciles]) (rule reconciles_eventPromises)
  then have "steps reconciles
     (thenP (allP (eventPromises env acct fname fobj 0 evs)) (\<lambda>rs. resolve (Array rs)))"
    by (rule steps_thenP [OF transp_reconciles]) (rule reconciles_resolve)
  with Some show ?thesis by simp
qed

lemma reconciles_functions: "steps reconciles (reconcileFunctions env acct)"
proof (rule steps_thenP [OF transp_reconciles])
  show "steps reconciles
     (allP (map (\<lambda>(functionName', functionObj').
                   case events functionObj' of
                     None \<Rightarrow> resolve Undefined
                   | Some evs \<Rightarrow>
                       thenP (allP (eventPromises env acct functionName' functionObj' 0 evs))
                         (\<lambda>rs. resolve (Array rs)))
                (service_functions env)))"
    by (rule steps_allP [OF reflp_reconciles transp_reconciles])
       (auto simp: reconciles_events)
  show "steps reconciles (resolve (Array rs))" for rs
    by (rule reconciles_resolve)
qed

subsection \<open>The sample service, evaluated\<close>

lemma sample_fields:
  "bucketName sample_env = ''bucket''"
  "getDeploymentPrefix sample_env = ''serverless''"
  "service sample_env = ''svc''"
  "getStage sample_env = ''dev''"
  "getStackName sample_env = ''svc-dev''"
  "getRegion sample_env = ''us-east-1''"
  "service_functions sample_env =
     [(''hello'',
       \<lparr>name = ''svc-dev-hello'',
        events = Some [\<lparr>cloudwatchLog = Some (LogGroupName ''/aws/lambda/other'')\<rparr>]\<rparr>)]"
  "getCloudWatchLogLogicalId sample_env f n =
     ''HelloLogsSubscriptionFilterCloudWatchLog1''"
  "servicePath sample_env = ''/srv''"
  "artifact sample_env = None"
  "path_join sample_env a b = a @ ''/'' @ b"
  "path_resolve sample_env a b = a @ ''/'' @ b"
  "globby_zip sample_env d = [''hello.zip'']"
  "localCfHash sample_env = ''T''"
  "readFile_sha256 sample_env h p = Inr ''H''"
  "S3_listObjectsV2 sample_env h b p =
     Inr (Some \<lparr>Contents = Some
       [\<lparr>Key = ''serverless/svc/dev/1/hello.zip'', Size = 10\<rparr>,
        \<lparr>Key = ''serverless/svc/dev/2/hello.zip'', Size = 10\<rparr>,
        \<lparr>Key = ''serverless/svc/dev/2/template.json'', Size = 5\<rparr>]\<rparr>)"
  "S3_headObject sample_env h b k =
     Inr \<lparr>Metadata =
            [''filesha256'' \<mapsto> (if k = ''serverless/svc/dev/2/hello.zip'' then ''H'' else ''T'')],
          LastModified = Some 100\<rparr>"
  "Lambda_getFunction sample_env h fn = Inr 200"
  "getAccountInfo sample_env h = Inr (Account ''123'' ''aws'')"
  "describeSubscriptionFilters sample_env h g =
     Inr [\<lparr>filterName = ''svc-dev-OldLogsSubscriptionFilterCloudWatchLog1-XYZ'',
           destinationArn = ''arn:aws:lambda:us-east-1:123:function:svc-dev-old''\<rparr>]"
  "deleteSubscriptionFilter sample_env h g f =
     Inl (ProviderError ''Rate exceeded'' (Some 400))"
  by (simp_all add: sample_env_def)

lemma sample_env_self: "sample_env\<lparr>localCfHash := ''T''\<rparr> = sample_env"
  by (simp add: sample_env_def)

lemma sample_orderBy:
  "orderBy_Key_desc
     [\<lparr>Key = ''serverless/svc/dev/1/hello.zip'', Size = 10\<rparr>,
      \<lparr>Key = ''serverless/svc/dev/2/hello.zip'', Size = 10\<rparr>,
      \<lparr>Key = ''serverless/svc/dev/2/template.json'', Size = 5\<rparr>]
   = [\<lparr>Key = ''serverless/svc/dev/2/template.json'', Size = 5\<rparr>,
      \<lparr>Key = ''serverless/svc/dev/2/hello.zip'', Size = 10\<rparr>,
      \<lparr>Key = ''serverless/svc/dev/1/hello.zip'', Size = 10\<rparr>]"
  by code_simp

lemma sample_getMostRecentObjects:
  "getMostRecentObjects (sample_env\<lparr>localCfHash := t\<rparr>) s =
     (Inr [\<lparr>Key = ''serverless/svc/dev/2/template.json'', Size = 5\<rparr>,
           \<lparr>Key = ''serverless/svc/dev/2/hello.zip'', Size = 10\<rparr>],
      s\<lparr>calls := calls s @ [ListObjectsV2 ''bucket'' ''serverless/svc/dev'']\<rparr>)"
  by (simp add: getMostRecentObjects_def sample_fields thenP_def catchP_def request_def
        resolve_def Let_def sample_orderBy directory_def substring_def)

lemma sample_getObjectMetadata:
  "getObjectMetadata (sample_env\<lparr>localCfHash := t\<rparr>)
     [\<lparr>Key = ''serverless/svc/dev/2/template.json'', Size = 5\<rparr>,
      \<lparr>Key = ''serverless/svc/dev/2/hello.zip'', Size = 10\<rparr>] s =
     (Inr [\<lparr>Metadata = [''filesha256'' \<mapsto> ''T''], LastModified = Some 100\<rparr>,
           \<lparr>Metadata = [''filesha256'' \<mapsto> ''H''], LastModified = Some 100\<rparr>],
      s\<lparr>calls := calls s @ [HeadObject ''bucket'' ''serverless/svc/dev/2/template.json'',
                              HeadObject ''bucket'' ''serverless/svc/dev/2/hello.zip'']\<rparr>)"
  by (simp add: getObjectMetadata_def sample_fields thenP_def request_def resolve_def Let_def)

lemma sample_getFunctionsEarliest:
  "getFunctionsEarliestLastModifiedDate (sample_env\<lparr>localCfHash := t\<rparr>) s =
     (Inr (Some 200), s\<lparr>calls := calls s @ [GetFunction ''svc-dev-hello'']\<rparr>)"
  by (simp add: getFunctionsEarliestLastModifiedDate_def getFunctionResult_def sample_fields
        thenP_def catchP_def request_def resolve_def Let_def reduce_min_def)

lemma sample_sorts:
  "sort [''T'', ''H''] = [''H'', ''T'']"
  "sort [''H'', ''T''] = [''H'', ''T'']"
  "sort [''H'', ''X''] = [''H'', ''X'']"
  by code_simp+

lemma sample_zipFiles: "zipFiles (sample_env\<lparr>localCfHash := t\<rparr>) = [''hello.zip'']"
  by (simp add: zipFiles_def sample_fields)

lemma sample_zipFilePaths:
  "zipFilePaths (sample_env\<lparr>localCfHash := t\<rparr>) = [''/srv/.serverless/hello.zip'']"
  by (simp add: zipFilePaths_def sample_zipFiles sample_fields)

lemma sample_zipFileHashes:
  "allP (zipFileHashesPromises (sample_env\<lparr>localCfHash := t\<rparr>)) s =
     (Inr [''H''], s\<lparr>calls := calls s @ [ReadFile ''/srv/.serverless/hello.zip'']\<rparr>)"
  by (simp add: zipFileHashesPromises_def sample_zipFilePaths request_def resolve_def
        sample_fields)

lemma sample_checkIf_same:
  "checkIfDeploymentIsNecessary (sample_env\<lparr>localCfHash := ''T''\<rparr>)
     [\<lparr>Metadata = [''filesha256'' \<mapsto> ''T''], LastModified = Some 100\<rparr>,
      \<lparr>Metadata = [''filesha256'' \<mapsto> ''H''], LastModified = Some 100\<rparr>] (Some 200) s =
   (Inr Undefined,
    s\<lparr>shouldNotDeploy := True,
      logged := logged s @
        [''IS DEPLOYMENT NECESSARY'', ''zipFiles: hello.zip'',
         ''zipFilePaths: /srv/.serverless/hello.zip'', ''zipFileHashes: H'',
         ''Service files not changed. Skipping deployment...''],
      calls := calls s @ [ReadFile ''/srv/.serverless/hello.zip'']\<rparr>)"
  by (simp add: checkIfDeploymentIsNecessary_def compareHashes_def thenP_def cli_log_def
        resolve_def set_shouldNotDeploy_def Let_def remoteHash_def changed_after_def
        to_number_def areHashesEqual_def sample_sorts sample_zipFileHashes sample_zipFiles
        sample_zipFilePaths sample_fields)

lemma sample_checkIf_changed:
  "checkIfDeploymentIsNecessary (sample_env\<lparr>localCfHash := ''X''\<rparr>)
     [\<lparr>Metadata = [''filesha256'' \<mapsto> ''T''], LastModified = Some 100\<rparr>,
      \<lparr>Metadata = [''filesha256'' \<mapsto> ''H''], LastModified = Some 100\<rparr>] (Some 200) s =
   (Inr Undefined,
    s\<lparr>logged := logged s @
        [''IS DEPLOYMENT NECESSARY'', ''zipFiles: hello.zip'',
         ''zipFilePaths: /srv/.serverless/hello.zip'', ''zipFileHashes: H'',
         ''NOT SKIPPING DEPLOYMENT'', ''REASON: Hashes are not equal'',
         ''Remote hashes: H,T'', ''Local hashes: H,X''],
      calls := calls s @ [ReadFile ''/srv/.serverless/hello.zip'']\<rparr>)"
  by (simp add: checkIfDeploymentIsNecessary_def compareHashes_def thenP_def cli_log_def
        resolve_def set_shouldNotDeploy_def Let_def remoteHash_def changed_after_def
        to_number_def areHashesEqual_def sample_sorts sample_zipFileHashes sample_zipFiles
        sample_zipFilePaths sample_fields)

lemma sample_necessityEvaluation_same:
  "necessityEvaluation (sample_env\<lparr>localCfHash := ''T''\<rparr>) s =
   (Inr Undefined,
    s\<lparr>shouldNotDeploy := True,
      logged := logged s @
        [''IS DEPLOYMENT NECESSARY'', ''zipFiles: hello.zip'',
         ''zipFilePaths: /srv/.serverless/hello.zip'', ''zipFileHashes: H'',
         ''Service files not changed. Skipping deployment...''],
      calls := calls s @
        [ListObjectsV2 ''bucket'' ''serverless/svc/dev'',
         HeadObject ''bucket'' ''serverless/svc/dev/2/template.json'',
         HeadObject ''bucket'' ''serverless/svc/dev/2/hello.zip'',
         GetFunction ''svc-dev-hello'', ReadFile ''/srv/.serverless/hello.zip'']\<rparr>)"
  by (simp add: necessityEvaluation_def thenP_def allP2_def sample_getMostRecentObjects
        sample_getObjectMetadata sample_getFunctionsEarliest sample_checkIf_same)

lemma sample_necessityEvaluation_changed:
  "necessityEvaluation (sample_env\<lparr>localCfHash := ''X''\<rparr>) s =
   (Inr Undefined,
    s\<lparr>logged := logged s @
        [''IS DEPLOYMENT NECESSARY'', ''zipFiles: hello.zip'',
         ''zipFilePaths: /srv/.serverless/hello.zip'', ''zipFileHashes: H'',
         ''NOT SKIPPING DEPLOYMENT'', ''REASON: Hashes are not equal'',
         ''Remote hashes: H,T'', ''Local hashes: H,X''],
      calls := calls s @
        [ListObjectsV2 ''bucket'' ''serverless/svc/dev'',
         HeadObject ''bucket'' ''serverless/svc/dev/2/template.json'',
         HeadObject ''bucket'' ''serverless/svc/dev/2/hello.zip'',
         GetFunction ''svc-dev-hello'', ReadFile ''/srv/.serverless/hello.zip'']\<rparr>)"
  by (simp add: necessityEvaluation_def thenP_def allP2_def sample_getMostRecentObjects
        sample_getObjectMetadata sample_getFunctionsEarliest sample_checkIf_changed)

lemma sample_fix:
  "fixLogGroupSubscriptionFilters (sample_env\<lparr>localCfHash := t\<rparr>)
     \<lparr>accountId = ''123'', logGroupName = ''/aws/lambda/other'', functionName = ''hello'',
      functionObj = \<lparr>name = ''svc-dev-hello'',
        events = Some [\<lparr>cloudwatchLog = Some (LogGroupName ''/aws/lambda/other'')\<rparr>]\<rparr>,
      region = ''us-east-1'', partition = ''aws'', logSubscriptionSerialNumber = Suc 0\<rparr> s =
   (Inr Undefined,
    s\<lparr>calls := calls s @
       [DescribeSubscriptionFilters ''/aws/lambda/other'',
        DeleteSubscriptionFilter ''/aws/lambda/other''
          ''svc-dev-OldLogsSubscriptionFilterCloudWatchLog1-XYZ'']\<rparr>)"
  by (simp add: fixLogGroupSubscriptionFilters_def thenP_def catchP_def request_def resolve_def
        Let_def sample_fields)

lemma sample_reconciler:
  "checkLogGroupSubscriptionFilterResourceLimitExceeded (sample_env\<lparr>localCfHash := t\<rparr>) s =
   (Inr (Array [Array [Undefined]]),
    s\<lparr>calls := calls s @
       [GetAccountInfo, DescribeSubscriptionFilters ''/aws/lambda/other'',
        DeleteSubscriptionFilter ''/aws/lambda/other''
          ''svc-dev-OldLogsSubscriptionFilterCloudWatchLog1-XYZ'']\<rparr>)"
  by (simp add: checkLogGroupSubscriptionFilterResourceLimitExceeded_def thenP_def request_def
        resolve_def Let_def sample_fields sample_fix)

subsection \<open>checkForChanges\<close>

lemma checkForChanges_force_run:
  "force opts \<Longrightarrow>
   checkForChanges env opts s =
     checkLogGroupSubscriptionFilterResourceLimitExceeded env (s\<lparr>shouldNotDeploy := False\<rparr>)"
  by (simp add: checkForChanges_def thenP_def set_shouldNotDeploy_def)

lemma checkForChanges_evaluate_run:
  "\<not> force opts \<Longrightarrow>
   checkForChanges env opts s =
     (case necessityEvaluation env (s\<lparr>shouldNotDeploy := False\<rparr>) of
        (Inl e, s') \<Rightarrow> (Inl e, s')
      | (Inr v, s') \<Rightarrow>
          if shouldNotDeploy s' then (Inr Undefined, s')
          else checkLogGroupSubscriptionFilterResourceLimitExceeded env s')"
  by (simp add: checkForChanges_def necessityEvaluation_def thenP_def set_shouldNotDeploy_def
        resolve_def split: prod.splits sum.splits)

lemma reconciler_run:
  "\<exists>cs. calls (snd (checkLogGroupSubscriptionFilterResourceLimitExceeded env s))
           = calls s @ GetAccountInfo # cs
        \<and> list_all is_filter_call cs
        \<and> shouldNotDeploy (snd (checkLogGroupSubscriptionFilterResourceLimitExceeded env s))
           = shouldNotDeploy s
        \<and> logged (snd (checkLogGroupSubscriptionFilterResourceLimitExceeded env s)) = logged s"
proof (cases "getAccountInfo env (calls s)")
  case (Inl e)
  then have "checkLogGroupSubscriptionFilterResourceLimitExceeded env s
             = (Inl e, s\<lparr>calls := calls s @ [GetAccountInfo]\<rparr>)"
    by (simp add: checkLogGroupSubscriptionFilterResourceLimitExceeded_def thenP_def request_def)
  then show ?thesis by simp
next
  case (Inr acct)
  let ?s1 = "s\<lparr>calls := calls s @ [GetAccountInfo]\<rparr>"
  have run: "checkLogGroupSubscriptionFilterResourceLimitExceeded env s
             = reconcileFunctions env acct ?s1"
    using Inr
    by (simp add: checkLogGroupSubscriptionFilterResourceLimitExceeded_def thenP_def request_def)
  have "reconciles ?s1 (snd (reconcileFunctions env acct ?s1))"
    using reconciles_functions by (rule stepsD)
  then obtain cs where "calls (snd (reconcileFunctions env acct ?s1)) = calls ?s1 @ cs"
    "list_all is_filter_call cs"
    "shouldNotDeploy (snd (reconcileFunctions env acct ?s1)) = shouldNotDeploy s"
    "logged (snd (reconcileFunctions env acct ?s1)) = logged s"
    by (auto simp: reconciles_def)
  then show ?thesis by (simp add: run)
qed

lemma evaluates_necessityEvaluation: "steps evaluates (necessityEvaluation env)"
  unfolding necessityEvaluation_def split_beta
  by (intro steps_thenP steps_allP2 transp_evaluates fetches_evaluates
        fetches_getMostRecentObjects fetches_getObjectMetadata fetches_getFunctionsEarliest
        evaluates_checkIf)

lemma not_GetAccountInfo_filter_call: "list_all is_filter_call cs \<Longrightarrow> GetAccountInfo \<notin> set cs"
  by (induction cs) (auto simp: is_filter_call_def)

text \<open>
  C4. With \<open>force\<close> set, \<open>checkForChanges\<close> is the reconciler run with the flag
  reset: \<open>shouldNotDeploy\<close> is false at the end, nothing is logged, and the requests
  issued are \<open>getAccountInfo\<close> followed by requests about subscription filters only, so
  there is no listing, no metadata fetch, no function lookup and no file is read or
  hashed. Without \<open>force\<close>, when the necessity evaluation fulfils in the state \<open>s'\<close>, the
  reconciler runs from \<open>s'\<close> if \<open>shouldNotDeploy\<close> is false there and does not run
  otherwise: the evaluation itself never requests \<open>getAccountInfo\<close>, and that request
  occurs after it exactly when the flag is false. The flag at the end is the one the
  evaluation left. When the evaluation rejects, \<open>checkForChanges\<close> rejects with the same
  reason and the reconciler does not run.
\<close>

theorem checkForChanges_force:
  "(force opts \<longrightarrow>
      checkForChanges env opts s =
        checkLogGroupSubscriptionFilterResourceLimitExceeded env (s\<lparr>shouldNotDeploy := False\<rparr>)
      \<and> shouldNotDeploy (snd (checkForChanges env opts s)) = False
      \<and> logged (snd (checkForChanges env opts s)) = logged s
      \<and> (\<exists>cs. calls (snd (checkForChanges env opts s)) = calls s @ GetAccountInfo # cs
              \<and> list_all is_filter_call cs))
   \<and> (\<not> force opts \<and> necessityEvaluation env (s\<lparr>shouldNotDeploy := False\<rparr>) = (Inr v, s') \<longrightarrow>
      checkForChanges env opts s =
        (if shouldNotDeploy s' then (Inr Undefined, s')
         else checkLogGroupSubscriptionFilterResourceLimitExceeded env s')
      \<and> shouldNotDeploy (snd (checkForChanges env opts s)) = shouldNotDeploy s'
      \<and> (\<exists>cs0 cs. calls s' = calls s @ cs0 \<and> GetAccountInfo \<notin> set cs0
              \<and> calls (snd (checkForChanges env opts s)) = calls s' @ cs
              \<and> (GetAccountInfo \<in> set cs \<longleftrightarrow> \<not> shouldNotDeploy s')))
   \<and> (\<not> force opts \<and> necessityEvaluation env (s\<lparr>shouldNotDeploy := False\<rparr>) = (Inl e, s'') \<longrightarrow>
      checkForChanges env opts s = (Inl e, s''))"
proof (intro conjI impI)
  let ?s0 = "s\<lparr>shouldNotDeploy := False\<rparr>"
  let ?rec = "checkLogGroupSubscriptionFilterResourceLimitExceeded env"
  {
    assume f: "force opts"
    show run: "checkForChanges env opts s = ?rec ?s0"
      using f by (rule checkForChanges_force_run)
    obtain cs where cs: "calls (snd (?rec ?s0)) = calls ?s0 @ GetAccountInfo # cs"
      "list_all is_filter_call cs" "shouldNotDeploy (snd (?rec ?s0)) = shouldNotDeploy ?s0"
      "logged (snd (?rec ?s0)) = logged ?s0"
      using reconciler_run [of env ?s0] by blast
    show "shouldNotDeploy (snd (checkForChanges env opts s)) = False"
      using cs(3) by (simp add: run)
    show "logged (snd (checkForChanges env opts s)) = logged s"
      using cs(4) by (simp add: run)
    show "\<exists>cs. calls (snd (checkForChanges env opts s)) = calls s @ GetAccountInfo # cs
              \<and> list_all is_filter_call cs"
      using cs(1,2) by (simp add: run)
  }
  {
    assume a: "\<not> force opts \<and> necessityEvaluation env ?s0 = (Inr v, s')"
    show run: "checkForChanges env opts s =
        (if shouldNotDeploy s' then (Inr Undefined, s') else ?rec s')"
      using a by (simp add: checkForChanges_evaluate_run)
    obtain cs where cs: "calls (snd (?rec s')) = calls s' @ GetAccountInfo # cs"
      "list_all is_filter_call cs" "shouldNotDeploy (snd (?rec s')) = shouldNotDeploy s'"
      using reconciler_run [of env s'] by blast
    show "shouldNotDeploy (snd (checkForChanges env opts s)) = shouldNotDeploy s'"
      using cs(3) by (simp add: run)
    have "evaluates ?s0 (snd (necessityEvaluation env ?s0))"
      using evaluates_necessityEvaluation by (rule stepsD)
    then obtain cs0 where cs0: "calls s' = calls s @ cs0" "GetAccountInfo \<notin> set cs0"
      using a by (auto simp: evaluates_def)
    show "\<exists>cs0 cs. calls s' = calls s @ cs0 \<and> GetAccountInfo \<notin> set cs0
              \<and> calls (snd (checkForChanges env opts s)) = calls s' @ cs
              \<and> (GetAccountInfo \<in> set cs \<longleftrightarrow> \<not> shouldNotDeploy s')"
    proof (cases "shouldNotDeploy s'")
      case True
      then have "calls (snd (checkForChanges env opts s)) = calls s' @ []
                 \<and> (GetAccountInfo \<in> set [] \<longleftrightarrow> \<not> shouldNotDeploy s')"
        by (simp add: run)
      with cs0 show ?thesis by blast
    next
      case False
      then have "calls (snd (checkForChanges env opts s)) = calls s' @ (GetAccountInfo # cs)
                 \<and> (GetAccountInfo \<in> set (GetAccountInfo # cs) \<longleftrightarrow> \<not> shouldNotDeploy s')"
        using cs(1) by (simp add: run)
      with cs0 show ?thesis by blast
    qed
  }
  {
    assume "\<not> force opts \<and> necessityEvaluation env ?s0 = (Inl e, s'')"
    then show "checkForChanges env opts s = (Inl e, s'')"
      by (simp add: checkForChanges_evaluate_run)
  }
qed

theorem checkForChanges_force_witness:
  "force \<lparr>force = True\<rparr>
   \<and> checkForChanges sample_env \<lparr>force = True\<rparr> sample_state =
       (Inr (Array [Array [Undefined]]),
        \<lparr>shouldNotDeploy = False, logged = [],
         calls = [GetAccountInfo, DescribeSubscriptionFilters ''/aws/lambda/other'',
                  DeleteSubscriptionFilter ''/aws/lambda/other''
                    ''svc-dev-OldLogsSubscriptionFilterCloudWatchLog1-XYZ'']\<rparr>)
   \<and> \<not> force \<lparr>force = False\<rparr>
   \<and> checkForChanges sample_env \<lparr>force = False\<rparr> sample_state =
       (Inr Undefined,
        \<lparr>shouldNotDeploy = True,
         logged = [''IS DEPLOYMENT NECESSARY'', ''zipFiles: hello.zip'',
           ''zipFilePaths: /srv/.serverless/hello.zip'', ''zipFileHashes: H'',
           ''Service files not changed. Skipping deployment...''],
         calls = [ListObjectsV2 ''bucket'' ''serverless/svc/dev'',
           HeadObject ''bucket'' ''serverless/svc/dev/2/template.json'',
           HeadObject ''bucket'' ''serverless/svc/dev/2/hello.zip'',
           GetFunction ''svc-dev-hello'', ReadFile ''/srv/.serverless/hello.zip'']\<rparr>)
   \<and> snd (checkForChanges (sample_env\<lparr>localCfHash := ''X''\<rparr>) \<lparr>force = False\<rparr> sample_state) =
        \<lparr>shouldNotDeploy = False,
         logged = [''IS DEPLOYMENT NECESSARY'', ''zipFiles: hello.zip'',
           ''zipFilePaths: /srv/.serverless/hello.zip'', ''zipFileHashes: H'',
           ''NOT SKIPPING DEPLOYMENT'', ''REASON: Hashes are not equal'',
           ''Remote hashes: H,T'', ''Local hashes: H,X''],
         calls = [ListObjectsV2 ''bucket'' ''serverless/svc/dev'',
           HeadObject ''bucket'' ''serverless/svc/dev/2/template.json'',
           HeadObject ''bucket'' ''serverless/svc/dev/2/hello.zip'',
           GetFunction ''svc-dev-hello'', ReadFile ''/srv/.serverless/hello.zip'',
           GetAccountInfo, DescribeSubscriptionFilters ''/aws/lambda/other'',
           DeleteSubscriptionFilter ''/aws/lambda/other''
             ''svc-dev-OldLogsSubscriptionFilterCloudWatchLog1-XYZ'']\<rparr>"
proof -
  let ?s0 = "sample_state\<lparr>shouldNotDeploy := False\<rparr>"
  have forced: "checkForChanges sample_env \<lparr>force = True\<rparr> sample_state =
      checkLogGroupSubscriptionFilterResourceLimitExceeded sample_env ?s0"
    using checkForChanges_force [where opts = "\<lparr>force = True\<rparr>" and env = sample_env
        and s = sample_state]
    by simp
  have same: "necessityEvaluation sample_env ?s0 =
      (Inr Undefined, snd (necessityEvaluation sample_env ?s0))"
    using sample_necessityEvaluation_same [of ?s0] by (simp add: sample_env_self)
  have skipped: "checkForChanges sample_env \<lparr>force = False\<rparr> sample_state =
      (if shouldNotDeploy (snd (necessityEvaluation sample_env ?s0))
       then (Inr Undefined, snd (necessityEvaluation sample_env ?s0))
       else checkLogGroupSubscriptionFilterResourceLimitExceeded sample_env
              (snd (necessityEvaluation sample_env ?s0)))"
    using checkForChanges_force [where opts = "\<lparr>force = False\<rparr>" and env = sample_env
        and s = sample_state and v = Undefined
        and s' = "snd (necessityEvaluation sample_env ?s0)"] same
    by simp
  let ?env = "sample_env\<lparr>localCfHash := ''X''\<rparr>"
  have changed: "necessityEvaluation ?env ?s0 =
      (Inr Undefined, snd (necessityEvaluation ?env ?s0))"
    using sample_necessityEvaluation_changed [of ?s0] by simp
  have deployed: "checkForChanges ?env \<lparr>force = False\<rparr> sample_state =
      (if shouldNotDeploy (snd (necessityEvaluation ?env ?s0))
       then (Inr Undefined, snd (necessityEvaluation ?env ?s0))
       else checkLogGroupSubscriptionFilterResourceLimitExceeded ?env
              (snd (necessityEvaluation ?env ?s0)))"
    using checkForChanges_force [where opts = "\<lparr>force = False\<rparr>" and env = ?env
        and s = sample_state and v = Undefined
        and s' = "snd (necessityEvaluation ?env ?s0)"] changed
    by simp
  show ?thesis
    unfolding forced skipped deployed
    using sample_necessityEvaluation_same [of ?s0] sample_necessityEvaluation_changed [of ?s0]
      sample_reconciler [of "''T''"] sample_reconciler [of "''X''"]
    by (simp add: sample_env_self sample_state_def)
qed

subsection \<open>The verdict\<close>

lemma list_ex_changed_after:
  "list_ex (changed_after d) objects \<longleftrightarrow>
     (\<exists>object \<in> set objects. \<exists>t. LastModified object = Some t \<and> to_number d < t)"
  by (auto simp: list_ex_iff changed_after_def split: option.splits)

lemma areHashesEqual_mset: "areHashesEqual xs ys \<longleftrightarrow> mset xs = mset ys"
  unfolding areHashesEqual_def by (metis mset_sort properties_for_sort sorted_sort)

lemma stepsD_flag: "steps fetches p \<Longrightarrow> shouldNotDeploy (snd (p s)) = shouldNotDeploy s"
  by (simp add: steps_def fetches_def)

text \<open>
  C1. A run without \<open>force\<close> in which the listing yields \<open>objs\<close>, the metadata requests
  yield the remote objects \<open>objects\<close>, the function scan yields the least function date
  \<open>funcLastModifiedDate\<close>, and, when there are remote objects, every zip file is
  read and hashed (with none, no file is read). At the end
  \<open>shouldNotDeploy\<close> is true exactly when the list of remote objects is not empty, no
  remote object has a \<open>LastModified\<close> strictly after the least function date, and the
  remote hashes are, as a multiset, the local hashes: the hashes of the zip files and the
  hash of the template. With an empty list of remote objects the flag stays false. The
  least function date is \<open>null\<close> when the service has no function, and the comparison
  then takes it as 0.
\<close>

theorem checkForChanges_verdict:
  assumes "\<not> force opts"
    and "getMostRecentObjects env (s\<lparr>shouldNotDeploy := False\<rparr>) = (Inr objs, s1)"
    and "allP2 (getObjectMetadata env objs) (getFunctionsEarliestLastModifiedDate env) s1
         = (Inr (objects, funcLastModifiedDate), s2)"
    and "objects \<noteq> [] \<Longrightarrow> fst (allP (zipFileHashesPromises env) s2) = Inr zipFileHashes"
  shows "shouldNotDeploy (snd (checkForChanges env opts s)) \<longleftrightarrow>
           objects \<noteq> []
           \<and> \<not> (\<exists>object \<in> set objects. \<exists>t.
                   LastModified object = Some t \<and> to_number funcLastModifiedDate < t)
           \<and> mset (map remoteHash objects) = mset (zipFileHashes @ [localCfHash env])"
proof -
  let ?s0 = "s\<lparr>shouldNotDeploy := False\<rparr>"
  let ?check = "checkIfDeploymentIsNecessary env objects funcLastModifiedDate"
  have "shouldNotDeploy (snd (getMostRecentObjects env ?s0)) = shouldNotDeploy ?s0"
    using fetches_getMostRecentObjects by (rule stepsD_flag)
  then have s1: "\<not> shouldNotDeploy s1"
    using assms(2) by simp
  have "steps fetches (allP2 (getObjectMetadata env objs) (getFunctionsEarliestLastModifiedDate env))"
    by (intro steps_allP2 transp_fetches fetches_getObjectMetadata fetches_getFunctionsEarliest)
  then have "shouldNotDeploy (snd (allP2 (getObjectMetadata env objs)
                (getFunctionsEarliestLastModifiedDate env) s1)) = shouldNotDeploy s1"
    by (rule stepsD_flag)
  then have s2: "\<not> shouldNotDeploy s2"
    using assms(3) s1 by simp
  have eval: "necessityEvaluation env ?s0 = ?check s2"
    using assms(2,3) by (simp add: necessityEvaluation_def thenP_def)
  have flag: "shouldNotDeploy (snd (?check s2)) \<longleftrightarrow>
           objects \<noteq> []
           \<and> \<not> list_ex (changed_after funcLastModifiedDate) objects
           \<and> areHashesEqual (map remoteHash objects) (zipFileHashes @ [localCfHash env])"
  proof (cases "objects = []")
    case True
    then show ?thesis using s2 by (simp add: checkIf_empty)
  next
    case False
    then show ?thesis
      using checkIf_ok(2) [OF False assms(4) [OF False], of funcLastModifiedDate] s2 by simp
  qed
  have ok: "fst (?check s2) = Inr Undefined"
  proof (cases "objects = []")
    case True
    then show ?thesis by (simp add: checkIf_empty)
  next
    case False
    then show ?thesis using checkIf_ok(1) [OF False assms(4) [OF False]] by simp
  qed
  then have run: "checkForChanges env opts s =
      (if shouldNotDeploy (snd (?check s2)) then (Inr Undefined, snd (?check s2))
       else checkLogGroupSubscriptionFilterResourceLimitExceeded env (snd (?check s2)))"
    using assms(1) eval
    by (cases "?check s2") (simp add: checkForChanges_evaluate_run)
  obtain cs where "shouldNotDeploy
      (snd (checkLogGroupSubscriptionFilterResourceLimitExceeded env (snd (?check s2))))
      = shouldNotDeploy (snd (?check s2))"
    using reconciler_run [of env "snd (?check s2)"] by blast
  then have "shouldNotDeploy (snd (checkForChanges env opts s)) = shouldNotDeploy (snd (?check s2))"
    by (simp add: run)
  then show ?thesis
    by (simp add: flag list_ex_changed_after areHashesEqual_mset)
qed

theorem checkForChanges_verdict_witness:
  "\<not> force \<lparr>force = False\<rparr>
   \<and> shouldNotDeploy (snd (checkForChanges sample_env \<lparr>force = False\<rparr> sample_state))
   \<and> \<not> shouldNotDeploy
         (snd (checkForChanges (sample_env\<lparr>localCfHash := ''X''\<rparr>) \<lparr>force = False\<rparr> sample_state))"
proof -
  let ?s0 = "sample_state\<lparr>shouldNotDeploy := False\<rparr>"
  let ?objs = "[\<lparr>Key = ''serverless/svc/dev/2/template.json'', Size = 5\<rparr>,
                \<lparr>Key = ''serverless/svc/dev/2/hello.zip'', Size = 10\<rparr>]"
  let ?objects = "[\<lparr>Metadata = [''filesha256'' \<mapsto> ''T''], LastModified = Some 100\<rparr>,
                   \<lparr>Metadata = [''filesha256'' \<mapsto> ''H''], LastModified = Some 100\<rparr>]"
  let ?s1 = "?s0\<lparr>calls := calls ?s0 @ [ListObjectsV2 ''bucket'' ''serverless/svc/dev'']\<rparr>"
  let ?s2 = "?s1\<lparr>calls := calls ?s1 @
               [HeadObject ''bucket'' ''serverless/svc/dev/2/template.json'',
                HeadObject ''bucket'' ''serverless/svc/dev/2/hello.zip'',
                GetFunction ''svc-dev-hello'']\<rparr>"
  have a: "getMostRecentObjects (sample_env\<lparr>localCfHash := t\<rparr>) ?s0 = (Inr ?objs, ?s1)" for t
    by (rule sample_getMostRecentObjects)
  have b: "allP2 (getObjectMetadata (sample_env\<lparr>localCfHash := t\<rparr>) ?objs)
             (getFunctionsEarliestLastModifiedDate (sample_env\<lparr>localCfHash := t\<rparr>)) ?s1
           = (Inr (?objects, Some 200), ?s2)" for t
    by (simp add: allP2_def sample_getObjectMetadata sample_getFunctionsEarliest)
  have c: "fst (allP (zipFileHashesPromises (sample_env\<lparr>localCfHash := t\<rparr>)) ?s2) = Inr [''H'']" for t
    by (simp add: sample_zipFileHashes)
  have f: "\<not> force \<lparr>force = False\<rparr>" by simp
  have m1: "mset [''T'', ''H''] = mset [''H'', ''T'']" by simp
  have "''T'' \<in># mset [''T'', ''H'']" and "''T'' \<notin># mset [''H'', ''X'']"
    by simp_all
  then have m2: "mset [''T'', ''H''] \<noteq> mset [''H'', ''X'']"
    by metis
  show ?thesis
    using checkForChanges_verdict [OF f a [of "''T''"] b [of "''T''"] c [of "''T''"]]
      checkForChanges_verdict [OF f a [of "''X''"] b [of "''X''"] c [of "''X''"]] m1 m2
    by (simp add: sample_env_self remoteHash_def to_number_def sample_fields)
qed

subsection \<open>Objects without a hash\<close>

lemma checkIf_fst:
  "objects \<noteq> [] \<Longrightarrow>
   fst (checkIfDeploymentIsNecessary env objects d s) =
     (case fst (allP (zipFileHashesPromises env) s) of
        Inl e \<Rightarrow> Inl e
      | Inr hs \<Rightarrow> Inr Undefined)"
  by (cases "fst (allP (zipFileHashesPromises env) s)")
     (simp_all add: checkIf_ok(1) checkIf_fail(1))

text \<open>
  C10. A remote object without \<open>filesha256\<close> in its metadata, or with the empty string
  for it, takes part in the evaluation with the empty string as its remote hash: the
  evaluation rejects only when a zip file cannot be read, the comparison of the hashes
  can succeed only when the empty string is among the local hashes, and so the
  deployment is skipped only then.
\<close>

theorem remoteHash_missing_filesha256:
  assumes "object \<in> set objects"
    and "Metadata object ''filesha256'' = None \<or> Metadata object ''filesha256'' = Some ''''"
  shows "remoteHash object = ''''
     \<and> fst (checkIfDeploymentIsNecessary env objects d s) =
         (case fst (allP (zipFileHashesPromises env) s) of
            Inl e \<Rightarrow> Inl e
          | Inr hs \<Rightarrow> Inr Undefined)
     \<and> (\<forall>localHashes. areHashesEqual (map remoteHash objects) localHashes \<longrightarrow>
            '''' \<in> set localHashes)
     \<and> (shouldNotDeploy (snd (checkIfDeploymentIsNecessary env objects d s))
          \<and> \<not> shouldNotDeploy s \<longrightarrow>
          (\<exists>hs. fst (allP (zipFileHashesPromises env) s) = Inr hs
                \<and> '''' \<in> set (hs @ [localCfHash env])))"
proof -
  have ne: "objects \<noteq> []" using assms(1) by auto
  have h: "remoteHash object = ''''"
    using assms(2) by (auto simp: remoteHash_def)
  then have mem: "'''' \<in> set (map remoteHash objects)"
    using assms(1) by force
  have gate: "'''' \<in> set localHashes"
    if "areHashesEqual (map remoteHash objects) localHashes" for localHashes
  proof -
    from that have "mset (map remoteHash objects) = mset localHashes"
      by (simp add: areHashesEqual_mset)
    then have "set (map remoteHash objects) = set localHashes"
      by (rule mset_eq_setD)
    with mem show ?thesis by simp
  qed
  have skip: "\<exists>hs. fst (allP (zipFileHashesPromises env) s) = Inr hs
                \<and> '''' \<in> set (hs @ [localCfHash env])"
    if a: "shouldNotDeploy (snd (checkIfDeploymentIsNecessary env objects d s))"
      and b: "\<not> shouldNotDeploy s"
  proof (cases "fst (allP (zipFileHashesPromises env) s)")
    case (Inl e)
    then show ?thesis using checkIf_fail(2) [OF ne Inl, of d] a b by simp
  next
    case (Inr hs)
    then have "areHashesEqual (map remoteHash objects) (hs @ [localCfHash env])"
      using checkIf_ok(2) [OF ne Inr, of d] a b by simp
    then have "'''' \<in> set (hs @ [localCfHash env])" by (rule gate)
    with Inr show ?thesis by blast
  qed
  from h checkIf_fst [OF ne] gate skip show ?thesis by blast
qed

lemma sample_sort_empty:
  "sort [''H'', ''''] = ['''', ''H'']"
  by code_simp

lemma sample_checkIf_empty_hash:
  "checkIfDeploymentIsNecessary (sample_env\<lparr>localCfHash := ''''\<rparr>)
     [\<lparr>Metadata = [''filesha256'' \<mapsto> ''H''], LastModified = Some 100\<rparr>,
      \<lparr>Metadata = Map.empty, LastModified = Some 100\<rparr>] (Some 200) s =
   (Inr Undefined,
    s\<lparr>shouldNotDeploy := True,
      logged := logged s @
        [''IS DEPLOYMENT NECESSARY'', ''zipFiles: hello.zip'',
         ''zipFilePaths: /srv/.serverless/hello.zip'', ''zipFileHashes: H'',
         ''Service files not changed. Skipping deployment...''],
      calls := calls s @ [ReadFile ''/srv/.serverless/hello.zip'']\<rparr>)"
  by (simp add: checkIfDeploymentIsNecessary_def compareHashes_def thenP_def cli_log_def
        resolve_def set_shouldNotDeploy_def Let_def remoteHash_def changed_after_def
        to_number_def areHashesEqual_def sample_sort_empty sample_zipFileHashes sample_zipFiles
        sample_zipFilePaths sample_fields)

theorem remoteHash_missing_filesha256_witness:
  "\<lparr>Metadata = Map.empty, LastModified = Some 100\<rparr>
     \<in> set [\<lparr>Metadata = [''filesha256'' \<mapsto> ''H''], LastModified = Some 100\<rparr>,
             \<lparr>Metadata = Map.empty, LastModified = Some 100\<rparr>]
   \<and> Metadata \<lparr>Metadata = Map.empty, LastModified = Some 100\<rparr> ''filesha256'' = None
   \<and> remoteHash \<lparr>Metadata = Map.empty, LastModified = Some 100\<rparr> = ''''
   \<and> shouldNotDeploy
        (snd (checkIfDeploymentIsNecessary (sample_env\<lparr>localCfHash := ''''\<rparr>)
               [\<lparr>Metadata = [''filesha256'' \<mapsto> ''H''], LastModified = Some 100\<rparr>,
                \<lparr>Metadata = Map.empty, LastModified = Some 100\<rparr>] (Some 200) sample_state))
   \<and> \<not> shouldNotDeploy sample_state
   \<and> (\<exists>hs. fst (allP (zipFileHashesPromises (sample_env\<lparr>localCfHash := ''''\<rparr>)) sample_state)
             = Inr hs
           \<and> '''' \<in> set (hs @ [localCfHash (sample_env\<lparr>localCfHash := ''''\<rparr>)]))"
proof -
  let ?object = "\<lparr>Metadata = Map.empty, LastModified = Some 100\<rparr>"
  let ?objects = "[\<lparr>Metadata = [''filesha256'' \<mapsto> ''H''], LastModified = Some 100\<rparr>, ?object]"
  have a: "?object \<in> set ?objects" by simp
  have b: "Metadata ?object ''filesha256'' = None \<or> Metadata ?object ''filesha256'' = Some ''''"
    by simp
  have c: "shouldNotDeploy
        (snd (checkIfDeploymentIsNecessary (sample_env\<lparr>localCfHash := ''''\<rparr>) ?objects
               (Some 200) sample_state))"
    by (simp add: sample_checkIf_empty_hash)
  have d: "\<not> shouldNotDeploy sample_state"
    by (simp add: sample_state_def)
  show ?thesis
    using remoteHash_missing_filesha256 [OF a b, of "sample_env\<lparr>localCfHash := ''''\<rparr>"
        "Some 200" sample_state] c d
    by simp
qed

subsection \<open>The scan of the functions\<close>

lemma foldl_reduce_min_Some: "foldl reduce_min (Some m) xs = Some (fold min xs m)"
proof (induction xs arbitrary: m)
  case Nil
  then show ?case by simp
next
  case (Cons x xs)
  have "reduce_min (Some m) x = Some (min x m)"
    by (simp add: reduce_min_def min_def)
  then show ?case by (simp add: Cons.IH)
qed

lemma foldl_reduce_min:
  "foldl reduce_min None xs = (if xs = [] then None else Some (Min (set xs)))"
proof (cases xs)
  case Nil
  then show ?thesis by simp
next
  case (Cons x xs')
  have "foldl reduce_min None (x # xs') = foldl reduce_min (Some x) xs'"
    by (simp add: reduce_min_def)
  moreover have "Min (set (x # xs')) = fold min xs' x"
    by (rule Min.set_eq_fold)
  ultimately show ?thesis
    using Cons by (simp add: foldl_reduce_min_Some)
qed

lemma getFunctionResult_run:
  "getFunctionResult env f s =
     (Inr (date_of (Lambda_getFunction env (calls s) (name (snd f))),
           denied (Lambda_getFunction env (calls s) (name (snd f)))),
      s\<lparr>calls := calls s @ [GetFunction (name (snd f))]\<rparr>)"
  by (cases f; cases "Lambda_getFunction env (calls s) (name (snd f))")
     (simp_all add: getFunctionResult_def thenP_def catchP_def request_def resolve_def
        date_of_def denied_def)

lemma allP_getFunctionResults:
  "allP (map (getFunctionResult env) fs) s =
     (Inr (map (\<lambda>a. (date_of a, denied a)) (getFunction_answers env (calls s) fs)),
      s\<lparr>calls := calls s @ map (\<lambda>f. GetFunction (name (snd f))) fs\<rparr>)"
proof (induction fs arbitrary: s)
  case Nil
  then show ?case by (simp add: resolve_def)
next
  case (Cons f fs)
  let ?s1 = "s\<lparr>calls := calls s @ [GetFunction (name (snd f))]\<rparr>"
  have head: "getFunctionResult env f s =
     (Inr (date_of (Lambda_getFunction env (calls s) (name (snd f))),
           denied (Lambda_getFunction env (calls s) (name (snd f)))), ?s1)"
    by (rule getFunctionResult_run)
  have tail: "allP (map (getFunctionResult env) fs) ?s1 =
     (Inr (map (\<lambda>a. (date_of a, denied a)) (getFunction_answers env (calls ?s1) fs)),
      ?s1\<lparr>calls := calls ?s1 @ map (\<lambda>f. GetFunction (name (snd f))) fs\<rparr>)"
    by (rule Cons.IH)
  show ?case
    by (simp add: head tail)
qed

text \<open>
  C5. The scan of the functions always fulfils and requests every function, whatever
  the answers. A function whose request is answered with an error counts with the
  epoch, 0, as its date. The value is \<open>null\<close> when the service has no function and the
  least of the per-function dates otherwise. The warning is logged once when at least
  one answer is an error with status code 403, and nothing is logged otherwise.
\<close>

theorem getFunctionsEarliestLastModifiedDate_scan:
  "getFunctionsEarliestLastModifiedDate env s =
     (Inr (if service_functions env = [] then None
           else Some (Min (set (map date_of
                  (getFunction_answers env (calls s) (service_functions env)))))),
      s\<lparr>calls := calls s @ map (\<lambda>f. GetFunction (name (snd f))) (service_functions env),
        logged := logged s @
          (if list_ex denied (getFunction_answers env (calls s) (service_functions env))
           then [access_warning] else [])\<rparr>)"
proof -
  let ?as = "getFunction_answers env (calls s) (service_functions env)"
  have len: "?as = [] \<longleftrightarrow> service_functions env = []"
    by (cases "service_functions env") simp_all
  have ex: "list_ex snd (map (\<lambda>a. (date_of a, denied a)) ?as) = list_ex denied ?as"
    by (simp add: list_ex_iff)
  have dates: "map fst (map (\<lambda>a. (date_of a, denied a)) ?as) = map date_of ?as"
    by (simp add: comp_def)
  show ?thesis
    unfolding getFunctionsEarliestLastModifiedDate_def Let_def
    by (simp add: thenP_def allP_getFunctionResults ex dates foldl_reduce_min len cli_log_def
          resolve_def)
qed

theorem getFunctionsEarliestLastModifiedDate_witness:
  "getFunctionsEarliestLastModifiedDate three_functions_env sample_state =
     (Inr (Some 0),
      \<lparr>shouldNotDeploy = False, logged = [access_warning],
       calls = [GetFunction ''svc-dev-a'', GetFunction ''svc-dev-b'', GetFunction ''svc-dev-c'']\<rparr>)"
proof -
  have fs: "service_functions three_functions_env =
          [(''a'', \<lparr>name = ''svc-dev-a'', events = None\<rparr>),
           (''b'', \<lparr>name = ''svc-dev-b'', events = None\<rparr>),
           (''c'', \<lparr>name = ''svc-dev-c'', events = None\<rparr>)]"
    by (simp add: three_functions_env_def)
  have g: "Lambda_getFunction three_functions_env h n =
      (if n = ''svc-dev-b'' then Inl (ProviderError ''AccessDenied'' (Some 403))
          else if n = ''svc-dev-a'' then Inr 500 else Inr 300)" for h n
    by (simp add: three_functions_env_def)
  show ?thesis
    using getFunctionsEarliestLastModifiedDate_scan [of three_functions_env sample_state]
    by (simp add: fs g date_of_def denied_def sample_state_def)
qed

subsection \<open>The latest deployment in the bucket\<close>

lemma getMostRecentObjects_rejected:
  assumes "S3_listObjectsV2 env (calls s) (bucketName env) (listing_prefix env) = Inl reason"
  shows "getMostRecentObjects env s =
     (Inl (if \<not> str_includes (message reason) ''The specified bucket does not exist''
           then reason
           else ServerlessError (bucket_missing_message (bucketName env) (getStackName env))),
      s\<lparr>calls := calls s @ [ListObjectsV2 (bucketName env) (listing_prefix env)]\<rparr>)"
  using assms
  by (simp add: getMostRecentObjects_def listing_prefix_def Let_def thenP_def catchP_def
        request_def reject_def)

lemma getMostRecentObjects_listed:
  assumes "S3_listObjectsV2 env (calls s) (bucketName env) (listing_prefix env) = Inr result"
  shows "getMostRecentObjects env s =
     (Inr (if listed result = [] then []
           else filter (\<lambda>obj. directory (Key (hd (orderBy_Key_desc (listed result))))
                                = directory (Key obj))
                  (orderBy_Key_desc (listed result))),
      s\<lparr>calls := calls s @ [ListObjectsV2 (bucketName env) (listing_prefix env)]\<rparr>)"
  using assms
  by (simp add: getMostRecentObjects_def listing_prefix_def Let_def thenP_def catchP_def
        request_def resolve_def listed_def split: option.splits)

lemma sorted_last_Max: "sorted xs \<Longrightarrow> xs \<noteq> [] \<Longrightarrow> last xs = Max (set xs)"
proof (induction xs)
  case Nil
  then show ?case by simp
next
  case (Cons x xs)
  show ?case
  proof (cases "xs = []")
    case True
    then show ?thesis by simp
  next
    case False
    then have "last xs = Max (set xs)" using Cons by simp
    moreover have "x \<le> Max (set xs)"
      using Cons.prems(1) False by (simp add: Max_ge_iff) (meson last_in_set)
    ultimately show ?thesis using False by (simp add: max_def)
  qed
qed

lemma mset_orderBy_Key_desc: "mset (orderBy_Key_desc objects) = mset objects"
  by (simp add: orderBy_Key_desc_def)

lemma Key_hd_orderBy_Key_desc:
  assumes "objects \<noteq> []"
  shows "Key (hd (orderBy_Key_desc objects)) = Max (Key ` set objects)"
proof -
  let ?zs = "sort_key Key (rev objects)"
  have ne: "?zs \<noteq> []" using assms by (metis length_sort length_rev length_0_conv)
  have "hd (orderBy_Key_desc objects) = last ?zs"
    using ne by (simp add: orderBy_Key_desc_def hd_rev)
  then have "Key (hd (orderBy_Key_desc objects)) = last (map Key ?zs)"
    using ne by (simp add: last_map)
  also have "\<dots> = Max (set (map Key ?zs))"
    using ne by (intro sorted_last_Max) (simp_all add: sorted_sort_key)
  also have "set (map Key ?zs) = Key ` set objects"
    by simp
  finally show ?thesis .
qed

text \<open>
  C7. When the listing is answered, \<open>getMostRecentObjects\<close> fulfils. With no object
  listed it fulfils with the empty list. Otherwise it fulfils with the listed objects,
  in descending order of their keys, whose directory is the directory of the greatest
  key: exactly those objects, each as often as it is listed, and so all with one
  directory. The directory of a key is the key up to its last slash
  (\<open>directory_slash\<close>, \<open>directory_no_slash\<close>).
\<close>

theorem getMostRecentObjects_latest_directory:
  assumes "S3_listObjectsV2 env (calls s) (bucketName env) (listing_prefix env) = Inr result"
  shows "(listed result = [] \<longrightarrow> fst (getMostRecentObjects env s) = Inr [])
     \<and> (listed result \<noteq> [] \<longrightarrow>
          (\<exists>recent.
             fst (getMostRecentObjects env s) = Inr recent
             \<and> recent =
                 filter (\<lambda>obj. directory (Key obj) = directory (Max (Key ` set (listed result))))
                   (orderBy_Key_desc (listed result))
             \<and> mset recent =
                 filter_mset
                   (\<lambda>obj. directory (Key obj) = directory (Max (Key ` set (listed result))))
                   (mset (listed result))
             \<and> list_all
                 (\<lambda>obj. directory (Key obj) = directory (Max (Key ` set (listed result))))
                 recent))"
proof (intro conjI impI)
  assume "listed result = []"
  then show "fst (getMostRecentObjects env s) = Inr []"
    by (simp add: getMostRecentObjects_listed [OF assms])
next
  assume ne: "listed result \<noteq> []"
  let ?P = "\<lambda>obj. directory (Key obj) = directory (Max (Key ` set (listed result)))"
  let ?recent = "filter ?P (orderBy_Key_desc (listed result))"
  have same: "(\<lambda>obj. directory (Key (hd (orderBy_Key_desc (listed result)))) = directory (Key obj))
              = ?P"
    by (auto simp: Key_hd_orderBy_Key_desc [OF ne])
  have "fst (getMostRecentObjects env s) = Inr ?recent"
    using ne by (simp add: getMostRecentObjects_listed [OF assms] same)
  moreover have "mset ?recent = filter_mset ?P (mset (listed result))"
    by (simp add: mset_orderBy_Key_desc)
  moreover have "list_all ?P ?recent"
    by (simp add: list_all_iff)
  ultimately show "\<exists>recent.
             fst (getMostRecentObjects env s) = Inr recent
             \<and> recent = filter ?P (orderBy_Key_desc (listed result))
             \<and> mset recent = filter_mset ?P (mset (listed result))
             \<and> list_all ?P recent"
    by blast
qed

lemma lastIndexOf_absent: "c \<notin> set s \<Longrightarrow> lastIndexOf s c = - 1"
  by (induction s) (auto simp: Let_def)

lemma lastIndexOf_last: "c \<notin> set f \<Longrightarrow> lastIndexOf (d @ c # f) c = int (length d)"
  by (induction d) (simp_all add: Let_def lastIndexOf_absent)

lemma directory_slash:
  "CHR ''/'' \<notin> set f \<Longrightarrow> directory (d @ ''/'' @ f) = d"
  by (simp add: directory_def lastIndexOf_last substring_def Let_def)

lemma directory_no_slash:
  "CHR ''/'' \<notin> set k \<Longrightarrow> directory k = ''''"
  by (simp add: directory_def lastIndexOf_absent substring_def Let_def)

lemma str_includes_append: "str_includes (a @ sub @ b) sub"
proof (induction a)
  case Nil
  show ?case
  proof (cases "sub @ b")
    case Nil
    then show ?thesis by simp
  next
    case (Cons c cs)
    then have "prefix sub (c # cs)" by (metis prefixI)
    then show ?thesis using Cons by simp
  qed
next
  case (Cons c a)
  then show ?case by simp
qed

lemma str_includes_iff: "str_includes s sub \<longleftrightarrow> (\<exists>ps ss. s = ps @ sub @ ss)"
proof
  show "str_includes s sub \<Longrightarrow> \<exists>ps ss. s = ps @ sub @ ss"
  proof (induction s)
    case Nil
    then show ?case by simp
  next
    case (Cons c cs)
    show ?case
    proof (cases "prefix sub (c # cs)")
      case True
      then obtain zs where "c # cs = sub @ zs" by (auto simp: prefix_def)
      then have "c # cs = [] @ sub @ zs" by simp
      then show ?thesis by blast
    next
      case False
      then have "str_includes cs sub" using Cons.prems by simp
      then obtain ps ss where "cs = ps @ sub @ ss" using Cons.IH by blast
      then have "c # cs = (c # ps) @ sub @ ss" by simp
      then show ?thesis by blast
    qed
  qed
next
  show "\<exists>ps ss. s = ps @ sub @ ss \<Longrightarrow> str_includes s sub"
    using str_includes_append by blast
qed

lemma bucket_missing_message_names:
  "str_includes (bucket_missing_message bucket stackName) bucket"
  "str_includes (bucket_missing_message bucket stackName) stackName"
proof -
  have "\<exists>ps ss. bucket_missing_message bucket stackName = ps @ bucket @ ss"
    unfolding bucket_missing_message_def join.simps
    by (metis append.assoc)
  then show "str_includes (bucket_missing_message bucket stackName) bucket"
    by (simp add: str_includes_iff)
  have "\<exists>ps ss. bucket_missing_message bucket stackName = ps @ stackName @ ss"
    unfolding bucket_missing_message_def join.simps
    by (metis append.assoc)
  then show "str_includes (bucket_missing_message bucket stackName) stackName"
    by (simp add: str_includes_iff)
qed

text \<open>
  C8. When the listing is rejected with a reason whose message contains
  \<open>The specified bucket does not exist\<close>, \<open>getMostRecentObjects\<close> rejects with a
  \<open>ServerlessError\<close> whose message contains the name of the bucket and the name of the
  stack. When it is rejected with any other reason, \<open>getMostRecentObjects\<close> rejects
  with that reason itself.
\<close>

theorem getMostRecentObjects_bucket_missing:
  assumes "S3_listObjectsV2 env (calls s) (bucketName env) (listing_prefix env) = Inl reason"
  shows "(str_includes (message reason) ''The specified bucket does not exist'' \<longrightarrow>
           (\<exists>msg. fst (getMostRecentObjects env s) = Inl (ServerlessError msg)
              \<and> msg = bucket_missing_message (bucketName env) (getStackName env)
              \<and> str_includes msg (bucketName env)
              \<and> str_includes msg (getStackName env)))
     \<and> (\<not> str_includes (message reason) ''The specified bucket does not exist'' \<longrightarrow>
           fst (getMostRecentObjects env s) = Inl reason)"
  using bucket_missing_message_names [of "bucketName env" "getStackName env"]
  by (simp add: getMostRecentObjects_rejected [OF assms])

subsection \<open>The listing on the sample service\<close>

lemma includes_no_bucket:
  "str_includes ''NoSuchBucket: The specified bucket does not exist''
     ''The specified bucket does not exist''"
  by code_simp

lemma includes_throttled:
  "\<not> str_includes ''SlowDown: Please reduce your request rate.''
     ''The specified bucket does not exist''"
  by code_simp

theorem getMostRecentObjects_bucket_missing_witness:
  "S3_listObjectsV2 no_bucket_env (calls sample_state) (bucketName no_bucket_env)
     (listing_prefix no_bucket_env)
     = Inl (ProviderError ''NoSuchBucket: The specified bucket does not exist'' (Some 404))
   \<and> str_includes
        (message (ProviderError ''NoSuchBucket: The specified bucket does not exist'' (Some 404)))
        ''The specified bucket does not exist''
   \<and> fst (getMostRecentObjects no_bucket_env sample_state) =
       Inl (ServerlessError
         (''The serverless deployment bucket '' @ [CHR 0x22] @ ''bucket'' @ [CHR 0x22]
          @ '' does not exist. Create it manually if you want to reuse the CloudFormation stack ''
          @ [CHR 0x22] @ ''svc-dev'' @ [CHR 0x22]
          @ '', or delete the stack if it is no longer required.''))
   \<and> S3_listObjectsV2 throttled_env (calls sample_state) (bucketName throttled_env)
       (listing_prefix throttled_env)
       = Inl (ProviderError ''SlowDown: Please reduce your request rate.'' (Some 503))
   \<and> fst (getMostRecentObjects throttled_env sample_state) =
       Inl (ProviderError ''SlowDown: Please reduce your request rate.'' (Some 503))"
proof -
  have a: "S3_listObjectsV2 no_bucket_env (calls sample_state) (bucketName no_bucket_env)
     (listing_prefix no_bucket_env)
     = Inl (ProviderError ''NoSuchBucket: The specified bucket does not exist'' (Some 404))"
    by (simp add: no_bucket_env_def)
  have b: "S3_listObjectsV2 throttled_env (calls sample_state) (bucketName throttled_env)
       (listing_prefix throttled_env)
       = Inl (ProviderError ''SlowDown: Please reduce your request rate.'' (Some 503))"
    by (simp add: throttled_env_def)
  have names: "bucketName no_bucket_env = ''bucket''" "getStackName no_bucket_env = ''svc-dev''"
    by (simp_all add: no_bucket_env_def sample_fields)
  show ?thesis
    using getMostRecentObjects_bucket_missing [OF a] getMostRecentObjects_bucket_missing [OF b]
      a b includes_no_bucket includes_throttled
    by (simp add: names bucket_missing_message_def)
qed

theorem getMostRecentObjects_latest_directory_witness:
  "S3_listObjectsV2 sample_env (calls sample_state) (bucketName sample_env)
     (listing_prefix sample_env)
     = Inr (Some \<lparr>Contents = Some
         [\<lparr>Key = ''serverless/svc/dev/1/hello.zip'', Size = 10\<rparr>,
          \<lparr>Key = ''serverless/svc/dev/2/hello.zip'', Size = 10\<rparr>,
          \<lparr>Key = ''serverless/svc/dev/2/template.json'', Size = 5\<rparr>]\<rparr>)
   \<and> fst (getMostRecentObjects sample_env sample_state) =
       Inr [\<lparr>Key = ''serverless/svc/dev/2/template.json'', Size = 5\<rparr>,
            \<lparr>Key = ''serverless/svc/dev/2/hello.zip'', Size = 10\<rparr>]
   \<and> list_all (\<lambda>obj. directory (Key obj) = ''serverless/svc/dev/2'')
        [\<lparr>Key = ''serverless/svc/dev/2/template.json'', Size = 5\<rparr>,
         \<lparr>Key = ''serverless/svc/dev/2/hello.zip'', Size = 10\<rparr>]
   \<and> S3_listObjectsV2 (sample_env\<lparr>S3_listObjectsV2 := (\<lambda>h b p. Inr (Some \<lparr>Contents = Some []\<rparr>))\<rparr>)
        (calls sample_state) (bucketName sample_env) (listing_prefix sample_env)
       = Inr (Some \<lparr>Contents = Some []\<rparr>)
   \<and> fst (getMostRecentObjects
             (sample_env\<lparr>S3_listObjectsV2 := (\<lambda>h b p. Inr (Some \<lparr>Contents = Some []\<rparr>))\<rparr>)
             sample_state) = Inr []"
proof -
  let ?objects = "[\<lparr>Key = ''serverless/svc/dev/1/hello.zip'', Size = 10\<rparr>,
          \<lparr>Key = ''serverless/svc/dev/2/hello.zip'', Size = 10\<rparr>,
          \<lparr>Key = ''serverless/svc/dev/2/template.json'', Size = 5\<rparr>]"
  let ?empty = "sample_env\<lparr>S3_listObjectsV2 := (\<lambda>h b p. Inr (Some \<lparr>Contents = Some []\<rparr>))\<rparr>"
  have a: "S3_listObjectsV2 sample_env (calls sample_state) (bucketName sample_env)
     (listing_prefix sample_env) = Inr (Some \<lparr>Contents = Some ?objects\<rparr>)"
    by (simp add: sample_fields)
  have b: "S3_listObjectsV2 ?empty (calls sample_state) (bucketName ?empty)
     (listing_prefix ?empty) = Inr (Some \<lparr>Contents = Some []\<rparr>)"
    by simp
  have mx: "Max (Key ` set ?objects) = ''serverless/svc/dev/2/template.json''"
    using Key_hd_orderBy_Key_desc [of ?objects] by (simp add: sample_orderBy)
  have dirs: "directory ''serverless/svc/dev/2/template.json'' = ''serverless/svc/dev/2''"
    "directory ''serverless/svc/dev/2/hello.zip'' = ''serverless/svc/dev/2''"
    "directory ''serverless/svc/dev/1/hello.zip'' = ''serverless/svc/dev/1''"
    by (simp_all add: directory_def substring_def)
  show ?thesis
    using getMostRecentObjects_latest_directory [OF a] getMostRecentObjects_latest_directory [OF b]
    by (simp add: listed_def sample_fields mx dirs sample_orderBy del: set_simps)
qed

subsection \<open>Stale subscription filters\<close>

lemma fix_describe_failed:
  "describeSubscriptionFilters env (calls s) (logGroupName ps) = Inl e \<Longrightarrow>
   fixLogGroupSubscriptionFilters env ps s =
     (Inr Undefined, s\<lparr>calls := calls s @ [DescribeSubscriptionFilters (logGroupName ps)]\<rparr>)"
  by (simp add: fixLogGroupSubscriptionFilters_def thenP_def catchP_def request_def resolve_def)

lemma fix_no_filter:
  "describeSubscriptionFilters env (calls s) (logGroupName ps) = Inr [] \<Longrightarrow>
   fixLogGroupSubscriptionFilters env ps s =
     (Inr JsFalse, s\<lparr>calls := calls s @ [DescribeSubscriptionFilters (logGroupName ps)]\<rparr>)"
  by (simp add: fixLogGroupSubscriptionFilters_def thenP_def catchP_def request_def resolve_def)

lemma fix_up_to_date:
  "describeSubscriptionFilters env (calls s) (logGroupName ps) = Inr (f # rest) \<Longrightarrow>
   destinationArn f =
     ''arn:'' @ partition ps @ '':lambda:'' @ region ps @ '':'' @ accountId ps
       @ '':function:'' @ name (functionObj ps) \<Longrightarrow>
   getLogicalIdFromFilterName (filterName f) =
     Some (getCloudWatchLogLogicalId env (functionName ps) (logSubscriptionSerialNumber ps)) \<Longrightarrow>
   fixLogGroupSubscriptionFilters env ps s =
     (Inr JsFalse, s\<lparr>calls := calls s @ [DescribeSubscriptionFilters (logGroupName ps)]\<rparr>)"
  by (simp add: fixLogGroupSubscriptionFilters_def thenP_def catchP_def request_def resolve_def
        Let_def)

lemma fix_stale:
  "describeSubscriptionFilters env (calls s) (logGroupName ps) = Inr (f # rest) \<Longrightarrow>
   \<not> (destinationArn f =
        ''arn:'' @ partition ps @ '':lambda:'' @ region ps @ '':'' @ accountId ps
          @ '':function:'' @ name (functionObj ps)
      \<and> getLogicalIdFromFilterName (filterName f) =
        Some (getCloudWatchLogLogicalId env (functionName ps) (logSubscriptionSerialNumber ps))) \<Longrightarrow>
   fixLogGroupSubscriptionFilters env ps s =
     (Inr (case deleteSubscriptionFilter env
                  (calls s @ [DescribeSubscriptionFilters (logGroupName ps)])
                  (logGroupName ps) (filterName f) of
             Inl e \<Rightarrow> Undefined
           | Inr u \<Rightarrow> DeleteResponse),
      s\<lparr>calls := calls s @ [DescribeSubscriptionFilters (logGroupName ps),
                              DeleteSubscriptionFilter (logGroupName ps) (filterName f)]\<rparr>)"
  by (cases "deleteSubscriptionFilter env
                  (calls s @ [DescribeSubscriptionFilters (logGroupName ps)])
                  (logGroupName ps) (filterName f)")
     (auto simp: fixLogGroupSubscriptionFilters_def thenP_def catchP_def request_def resolve_def
        Let_def)

lemma length_eventPromises: "length (eventPromises env acct fname fobj n evs) = length evs"
  by (induction evs arbitrary: n) (auto simp: Let_def split: option.splits account.splits)

lemma eventPromises_Cons_unbound:
  "binding ev = None \<Longrightarrow>
   eventPromises env acct fname fobj n (ev # evs) =
     resolve Undefined # eventPromises env acct fname fobj n evs"
  by (auto simp: binding_def split: option.splits cloudwatch_log.splits if_splits)

lemma eventPromises_Cons_bound:
  "binding ev = Some lg \<Longrightarrow>
   eventPromises env (Account aid part) fname fobj n (ev # evs) =
     fixLogGroupSubscriptionFilters env
       \<lparr>accountId = aid, logGroupName = lg, functionName = fname, functionObj = fobj,
        region = getRegion env, partition = part, logSubscriptionSerialNumber = Suc n\<rparr>
     # eventPromises env (Account aid part) fname fobj (Suc n) evs"
  by (auto simp: binding_def Let_def split: option.splits cloudwatch_log.splits if_splits)

lemma eventPromises_nth:
  "i < length evs \<Longrightarrow>
   eventPromises env (Account aid part) fname fobj n evs ! i =
     (case binding (evs ! i) of
        None \<Rightarrow> resolve Undefined
      | Some lg \<Rightarrow>
          fixLogGroupSubscriptionFilters env
            \<lparr>accountId = aid, logGroupName = lg, functionName = fname, functionObj = fobj,
             region = getRegion env, partition = part,
             logSubscriptionSerialNumber = n + serial evs i\<rparr>)"
proof (induction evs arbitrary: n i)
  case Nil
  then show ?case by simp
next
  case (Cons ev evs)
  show ?case
  proof (cases "binding ev")
    case None
    have step: "eventPromises env (Account aid part) fname fobj n (ev # evs) =
        resolve Undefined # eventPromises env (Account aid part) fname fobj n evs"
      using None by (rule eventPromises_Cons_unbound)
    show ?thesis
    proof (cases i)
      case 0
      then show ?thesis using None by (simp add: step del: eventPromises.simps)
    next
      case (Suc j)
      then have "j < length evs" using Cons.prems by simp
      then show ?thesis
        using None Suc Cons.IH [of j n]
        by (simp add: step serial_def del: eventPromises.simps cong: option.case_cong)
    qed
  next
    case (Some lg)
    have step: "eventPromises env (Account aid part) fname fobj n (ev # evs) =
        fixLogGroupSubscriptionFilters env
          \<lparr>accountId = aid, logGroupName = lg, functionName = fname, functionObj = fobj,
           region = getRegion env, partition = part, logSubscriptionSerialNumber = Suc n\<rparr>
        # eventPromises env (Account aid part) fname fobj (Suc n) evs"
      using Some by (rule eventPromises_Cons_bound)
    show ?thesis
    proof (cases i)
      case 0
      then show ?thesis using Some by (simp add: step serial_def del: eventPromises.simps cong: option.case_cong)
    next
      case (Suc j)
      then have "j < length evs" using Cons.prems by simp
      then show ?thesis
        using Some Suc Cons.IH [of j "Suc n"]
        by (simp add: step serial_def del: eventPromises.simps cong: option.case_cong)
    qed
  qed
qed

lemma reconciler_account:
  "getAccountInfo env (calls s) = Inr acct \<Longrightarrow>
   checkLogGroupSubscriptionFilterResourceLimitExceeded env s =
     reconcileFunctions env acct (s\<lparr>calls := calls s @ [GetAccountInfo]\<rparr>)"
  by (simp add: checkLogGroupSubscriptionFilterResourceLimitExceeded_def thenP_def request_def)

lemma fix_deleted:
  "describeSubscriptionFilters env (calls s) (logGroupName ps) = Inr (f # rest) \<Longrightarrow>
   \<not> (destinationArn f =
        ''arn:'' @ partition ps @ '':lambda:'' @ region ps @ '':'' @ accountId ps
          @ '':function:'' @ name (functionObj ps)
      \<and> getLogicalIdFromFilterName (filterName f) =
        Some (getCloudWatchLogLogicalId env (functionName ps) (logSubscriptionSerialNumber ps))) \<Longrightarrow>
   deleteSubscriptionFilter env (calls s @ [DescribeSubscriptionFilters (logGroupName ps)])
     (logGroupName ps) (filterName f) = Inr u \<Longrightarrow>
   fixLogGroupSubscriptionFilters env ps s =
     (Inr DeleteResponse,
      s\<lparr>calls := calls s @ [DescribeSubscriptionFilters (logGroupName ps),
                              DeleteSubscriptionFilter (logGroupName ps) (filterName f)]\<rparr>)"
  using fix_stale [of env s ps f rest] by simp

text \<open>
  C6. The reconciler, once the account is known, runs one promise per event of every
  function: \<open>eventPromises\<close> has one promise per event, which fulfils at once for an
  event without a binding and is \<open>fixLogGroupSubscriptionFilters\<close> for an event with
  one, for its log group, the account, the region, the function and the serial number
  of the binding. \<open>fixLogGroupSubscriptionFilters\<close> always requests the filters of the
  log group. When that request is rejected it fulfils (with \<open>undefined\<close>) and requests
  nothing else: the rejection is not passed on. When the request is answered with no
  filter, or the first filter has the destination
  \<open>arn:{partition}:lambda:{region}:{accountId}:function:{name}\<close> of the function and its
  name carries the logical id this deployment gives the subscription, it fulfils with
  \<open>false\<close> and requests nothing else. In every other case it requests exactly one
  deletion, of that filter of that log group, and fulfils when the deletion does.
\<close>

theorem fixLogGroupSubscriptionFilters_deletes_stale:
  "(getAccountInfo env (calls s0) = Inr (Account aid part) \<longrightarrow>
      checkLogGroupSubscriptionFilterResourceLimitExceeded env s0 =
        reconcileFunctions env (Account aid part) (s0\<lparr>calls := calls s0 @ [GetAccountInfo]\<rparr>))
   \<and> length (eventPromises env (Account aid part) fname fobj 0 evs) = length evs
   \<and> (i < length evs \<longrightarrow>
        eventPromises env (Account aid part) fname fobj 0 evs ! i =
          (case binding (evs ! i) of
             None \<Rightarrow> resolve Undefined
           | Some lg \<Rightarrow>
               fixLogGroupSubscriptionFilters env
                 \<lparr>accountId = aid, logGroupName = lg, functionName = fname,
                  functionObj = fobj, region = getRegion env, partition = part,
                  logSubscriptionSerialNumber = serial evs i\<rparr>))
   \<and> (describeSubscriptionFilters env (calls s) (logGroupName ps) = Inl e \<longrightarrow>
        fixLogGroupSubscriptionFilters env ps s =
          (Inr Undefined,
           s\<lparr>calls := calls s @ [DescribeSubscriptionFilters (logGroupName ps)]\<rparr>))
   \<and> (describeSubscriptionFilters env (calls s) (logGroupName ps) = Inr [] \<longrightarrow>
        fixLogGroupSubscriptionFilters env ps s =
          (Inr JsFalse,
           s\<lparr>calls := calls s @ [DescribeSubscriptionFilters (logGroupName ps)]\<rparr>))
   \<and> (describeSubscriptionFilters env (calls s) (logGroupName ps) = Inr (f # rest)
      \<and> destinationArn f =
          ''arn:'' @ partition ps @ '':lambda:'' @ region ps @ '':'' @ accountId ps
            @ '':function:'' @ name (functionObj ps)
      \<and> getLogicalIdFromFilterName (filterName f) =
          Some (getCloudWatchLogLogicalId env (functionName ps) (logSubscriptionSerialNumber ps))
      \<longrightarrow>
        fixLogGroupSubscriptionFilters env ps s =
          (Inr JsFalse,
           s\<lparr>calls := calls s @ [DescribeSubscriptionFilters (logGroupName ps)]\<rparr>))
   \<and> (describeSubscriptionFilters env (calls s) (logGroupName ps) = Inr (f # rest)
      \<and> \<not> (destinationArn f =
          ''arn:'' @ partition ps @ '':lambda:'' @ region ps @ '':'' @ accountId ps
            @ '':function:'' @ name (functionObj ps)
        \<and> getLogicalIdFromFilterName (filterName f) =
          Some (getCloudWatchLogLogicalId env (functionName ps) (logSubscriptionSerialNumber ps)))
      \<longrightarrow>
        snd (fixLogGroupSubscriptionFilters env ps s) =
          s\<lparr>calls := calls s @ [DescribeSubscriptionFilters (logGroupName ps),
                                  DeleteSubscriptionFilter (logGroupName ps) (filterName f)]\<rparr>
        \<and> (\<forall>u. deleteSubscriptionFilter env
                   (calls s @ [DescribeSubscriptionFilters (logGroupName ps)])
                   (logGroupName ps) (filterName f) = Inr u \<longrightarrow>
               fst (fixLogGroupSubscriptionFilters env ps s) = Inr DeleteResponse))"
proof (intro conjI impI allI)
  assume "getAccountInfo env (calls s0) = Inr (Account aid part)"
  then show "checkLogGroupSubscriptionFilterResourceLimitExceeded env s0 =
        reconcileFunctions env (Account aid part) (s0\<lparr>calls := calls s0 @ [GetAccountInfo]\<rparr>)"
    by (rule reconciler_account)
next
  show "length (eventPromises env (Account aid part) fname fobj 0 evs) = length evs"
    by (rule length_eventPromises)
next
  assume "i < length evs"
  then show "eventPromises env (Account aid part) fname fobj 0 evs ! i =
          (case binding (evs ! i) of
             None \<Rightarrow> resolve Undefined
           | Some lg \<Rightarrow>
               fixLogGroupSubscriptionFilters env
                 \<lparr>accountId = aid, logGroupName = lg, functionName = fname,
                  functionObj = fobj, region = getRegion env, partition = part,
                  logSubscriptionSerialNumber = serial evs i\<rparr>)"
    by (rule eventPromises_nth [of i evs env aid part fname fobj 0, unfolded plus_nat.add_0])
next
  assume "describeSubscriptionFilters env (calls s) (logGroupName ps) = Inl e"
  then show "fixLogGroupSubscriptionFilters env ps s =
          (Inr Undefined,
           s\<lparr>calls := calls s @ [DescribeSubscriptionFilters (logGroupName ps)]\<rparr>)"
    by (rule fix_describe_failed)
next
  assume "describeSubscriptionFilters env (calls s) (logGroupName ps) = Inr []"
  then show "fixLogGroupSubscriptionFilters env ps s =
          (Inr JsFalse,
           s\<lparr>calls := calls s @ [DescribeSubscriptionFilters (logGroupName ps)]\<rparr>)"
    by (rule fix_no_filter)
next
  assume "describeSubscriptionFilters env (calls s) (logGroupName ps) = Inr (f # rest)
      \<and> destinationArn f =
          ''arn:'' @ partition ps @ '':lambda:'' @ region ps @ '':'' @ accountId ps
            @ '':function:'' @ name (functionObj ps)
      \<and> getLogicalIdFromFilterName (filterName f) =
          Some (getCloudWatchLogLogicalId env (functionName ps) (logSubscriptionSerialNumber ps))"
  then show "fixLogGroupSubscriptionFilters env ps s =
          (Inr JsFalse,
           s\<lparr>calls := calls s @ [DescribeSubscriptionFilters (logGroupName ps)]\<rparr>)"
    by (simp add: fix_up_to_date)
next
  assume a: "describeSubscriptionFilters env (calls s) (logGroupName ps) = Inr (f # rest)
      \<and> \<not> (destinationArn f =
          ''arn:'' @ partition ps @ '':lambda:'' @ region ps @ '':'' @ accountId ps
            @ '':function:'' @ name (functionObj ps)
        \<and> getLogicalIdFromFilterName (filterName f) =
          Some (getCloudWatchLogLogicalId env (functionName ps) (logSubscriptionSerialNumber ps)))"
  show "snd (fixLogGroupSubscriptionFilters env ps s) =
          s\<lparr>calls := calls s @ [DescribeSubscriptionFilters (logGroupName ps),
                                  DeleteSubscriptionFilter (logGroupName ps) (filterName f)]\<rparr>"
    using fix_stale [of env s ps f rest] a by simp
  fix u
  assume "deleteSubscriptionFilter env
                   (calls s @ [DescribeSubscriptionFilters (logGroupName ps)])
                   (logGroupName ps) (filterName f) = Inr u"
  then show "fst (fixLogGroupSubscriptionFilters env ps s) = Inr DeleteResponse"
    using fix_deleted [of env s ps f rest u] a by simp
qed

lemma sample_logical_ids:
  "getLogicalIdFromFilterName ''svc-dev-OldLogsSubscriptionFilterCloudWatchLog1-XYZ''
     = Some ''OldLogsSubscriptionFilterCloudWatchLog1''"
  "getLogicalIdFromFilterName ''svc-dev-HelloLogsSubscriptionFilterCloudWatchLog1-ABC''
     = Some ''HelloLogsSubscriptionFilterCloudWatchLog1''"
  by (simp_all add: getLogicalIdFromFilterName_def index_def)

lemma three_events_bindings:
  "binding (three_events ! 0) = None"
  "binding (three_events ! 1) = Some ''/aws/lambda/other''"
  "binding (three_events ! 2) = Some ''/aws/lambda/third''"
  "serial three_events 1 = 1"
  "serial three_events 2 = 2"
  by (simp_all add: three_events_def binding_def serial_def)

theorem fixLogGroupSubscriptionFilters_witness:
  "getAccountInfo up_to_date_env (calls sample_state) = Inr (Account ''123'' ''aws'')
   \<and> checkLogGroupSubscriptionFilterResourceLimitExceeded up_to_date_env sample_state =
       reconcileFunctions up_to_date_env (Account ''123'' ''aws'')
         (sample_state\<lparr>calls := calls sample_state @ [GetAccountInfo]\<rparr>)
   \<and> 2 < length three_events
   \<and> eventPromises sample_env (Account ''123'' ''aws'') ''hello''
         \<lparr>name = ''svc-dev-hello'', events = Some three_events\<rparr> 0 three_events ! 0
       = resolve Undefined
   \<and> eventPromises sample_env (Account ''123'' ''aws'') ''hello''
         \<lparr>name = ''svc-dev-hello'', events = Some three_events\<rparr> 0 three_events ! 2
       = fixLogGroupSubscriptionFilters sample_env
           \<lparr>accountId = ''123'', logGroupName = ''/aws/lambda/third'', functionName = ''hello'',
            functionObj = \<lparr>name = ''svc-dev-hello'', events = Some three_events\<rparr>,
            region = ''us-east-1'', partition = ''aws'', logSubscriptionSerialNumber = 2\<rparr>
   \<and> fixLogGroupSubscriptionFilters no_log_group_env sample_params sample_state =
       (Inr Undefined,
        \<lparr>shouldNotDeploy = False, logged = [],
         calls = [DescribeSubscriptionFilters ''/aws/lambda/other'']\<rparr>)
   \<and> fixLogGroupSubscriptionFilters no_filter_env sample_params sample_state =
       (Inr JsFalse,
        \<lparr>shouldNotDeploy = False, logged = [],
         calls = [DescribeSubscriptionFilters ''/aws/lambda/other'']\<rparr>)
   \<and> fixLogGroupSubscriptionFilters up_to_date_env sample_params sample_state =
       (Inr JsFalse,
        \<lparr>shouldNotDeploy = False, logged = [],
         calls = [DescribeSubscriptionFilters ''/aws/lambda/other'']\<rparr>)
   \<and> fixLogGroupSubscriptionFilters deleting_env sample_params sample_state =
       (Inr DeleteResponse,
        \<lparr>shouldNotDeploy = False, logged = [],
         calls = [DescribeSubscriptionFilters ''/aws/lambda/other'',
                  DeleteSubscriptionFilter ''/aws/lambda/other''
                    ''svc-dev-OldLogsSubscriptionFilterCloudWatchLog1-XYZ'']\<rparr>)"
proof -
  let ?stale = "\<lparr>filterName = ''svc-dev-OldLogsSubscriptionFilterCloudWatchLog1-XYZ'',
                  destinationArn = ''arn:aws:lambda:us-east-1:123:function:svc-dev-old''\<rparr>"
  let ?fresh = "\<lparr>filterName = ''svc-dev-HelloLogsSubscriptionFilterCloudWatchLog1-ABC'',
                  destinationArn = ''arn:aws:lambda:us-east-1:123:function:svc-dev-hello''\<rparr>"
  let ?fobj = "\<lparr>name = ''svc-dev-hello'', events = Some three_events\<rparr>"
  have acct: "getAccountInfo up_to_date_env (calls sample_state) = Inr (Account ''123'' ''aws'')"
    by (simp add: up_to_date_env_def sample_fields)
  have len: "2 < length three_events" "0 < length three_events"
    by (simp_all add: three_events_def)
  have a: "describeSubscriptionFilters no_log_group_env h g
           = Inl (ProviderError ''The specified log group does not exist.'' (Some 400))" for h g
    by (simp add: no_log_group_env_def)
  have n: "describeSubscriptionFilters no_filter_env h g = Inr []" for h g
    by (simp add: no_filter_env_def)
  have b: "describeSubscriptionFilters up_to_date_env h g = Inr [?fresh]" for h g
    by (simp add: up_to_date_env_def)
  have c: "describeSubscriptionFilters deleting_env h g = Inr [?stale]" for h g
    by (simp add: deleting_env_def sample_fields)
  have d: "deleteSubscriptionFilter deleting_env h g f = Inr ()" for h g f
    by (simp add: deleting_env_def)
  have logical: "getCloudWatchLogLogicalId up_to_date_env f k
                   = ''HelloLogsSubscriptionFilterCloudWatchLog1''"
    "getCloudWatchLogLogicalId deleting_env f k = ''HelloLogsSubscriptionFilterCloudWatchLog1''"
    for f k
    by (simp_all add: up_to_date_env_def deleting_env_def sample_fields)
  have ps: "logGroupName sample_params = ''/aws/lambda/other''"
    "partition sample_params = ''aws''" "region sample_params = ''us-east-1''"
    "accountId sample_params = ''123''" "name (functionObj sample_params) = ''svc-dev-hello''"
    by (simp_all add: sample_params_def)
  note c6 = fixLogGroupSubscriptionFilters_deletes_stale
  have rec: "checkLogGroupSubscriptionFilterResourceLimitExceeded up_to_date_env sample_state =
       reconcileFunctions up_to_date_env (Account ''123'' ''aws'')
         (sample_state\<lparr>calls := calls sample_state @ [GetAccountInfo]\<rparr>)"
    using c6 [where env = up_to_date_env and ?s0.0 = sample_state and aid = "''123''"
               and part = "''aws''" and fname = "''hello''" and fobj = ?fobj
               and evs = three_events and i = 0 and ps = sample_params and s = sample_state
               and e = "TypeError []" and f = ?fresh and rest = "[]"] acct
    by blast
  have ev0: "eventPromises sample_env (Account ''123'' ''aws'') ''hello'' ?fobj 0 three_events ! 0
       = (case binding (three_events ! 0) of
            None \<Rightarrow> resolve Undefined
          | Some lg \<Rightarrow>
              fixLogGroupSubscriptionFilters sample_env
                \<lparr>accountId = ''123'', logGroupName = lg, functionName = ''hello'',
                 functionObj = ?fobj, region = getRegion sample_env, partition = ''aws'',
                 logSubscriptionSerialNumber = serial three_events 0\<rparr>)"
    using c6 [where env = sample_env and ?s0.0 = sample_state and aid = "''123''"
               and part = "''aws''" and fname = "''hello''" and fobj = ?fobj
               and evs = three_events and i = 0 and ps = sample_params and s = sample_state
               and e = "TypeError []" and f = ?fresh and rest = "[]"] len(2)
    by blast
  have ev2: "eventPromises sample_env (Account ''123'' ''aws'') ''hello'' ?fobj 0 three_events ! 2
       = (case binding (three_events ! 2) of
            None \<Rightarrow> resolve Undefined
          | Some lg \<Rightarrow>
              fixLogGroupSubscriptionFilters sample_env
                \<lparr>accountId = ''123'', logGroupName = lg, functionName = ''hello'',
                 functionObj = ?fobj, region = getRegion sample_env, partition = ''aws'',
                 logSubscriptionSerialNumber = serial three_events 2\<rparr>)"
    using c6 [where env = sample_env and ?s0.0 = sample_state and aid = "''123''"
               and part = "''aws''" and fname = "''hello''" and fobj = ?fobj
               and evs = three_events and i = 2 and ps = sample_params and s = sample_state
               and e = "TypeError []" and f = ?fresh and rest = "[]"] len(1)
    by blast
  have failed: "fixLogGroupSubscriptionFilters no_log_group_env sample_params sample_state =
       (Inr Undefined,
        sample_state\<lparr>calls := calls sample_state
           @ [DescribeSubscriptionFilters (logGroupName sample_params)]\<rparr>)"
    using c6 [where env = no_log_group_env and ?s0.0 = sample_state and aid = "''123''"
               and part = "''aws''" and fname = "''hello''" and fobj = ?fobj
               and evs = three_events and i = 0 and ps = sample_params and s = sample_state
               and e = "ProviderError ''The specified log group does not exist.'' (Some 400)"
               and f = ?fresh and rest = "[]"] a
    by blast
  have none: "fixLogGroupSubscriptionFilters no_filter_env sample_params sample_state =
       (Inr JsFalse,
        sample_state\<lparr>calls := calls sample_state
           @ [DescribeSubscriptionFilters (logGroupName sample_params)]\<rparr>)"
    using c6 [where env = no_filter_env and ?s0.0 = sample_state and aid = "''123''"
               and part = "''aws''" and fname = "''hello''" and fobj = ?fobj
               and evs = three_events and i = 0 and ps = sample_params and s = sample_state
               and e = "TypeError []" and f = ?fresh and rest = "[]"] n
    by blast
  have fresh_arn: "destinationArn ?fresh =
      ''arn:'' @ partition sample_params @ '':lambda:'' @ region sample_params @ '':''
        @ accountId sample_params @ '':function:'' @ name (functionObj sample_params)"
    by (simp add: ps)
  have fresh_id: "getLogicalIdFromFilterName (filterName ?fresh) =
      Some (getCloudWatchLogLogicalId up_to_date_env (functionName sample_params)
              (logSubscriptionSerialNumber sample_params))"
    by (simp add: logical sample_logical_ids)
  have fresh: "fixLogGroupSubscriptionFilters up_to_date_env sample_params sample_state =
       (Inr JsFalse,
        sample_state\<lparr>calls := calls sample_state
           @ [DescribeSubscriptionFilters (logGroupName sample_params)]\<rparr>)"
    using c6 [where env = up_to_date_env and ?s0.0 = sample_state and aid = "''123''"
               and part = "''aws''" and fname = "''hello''" and fobj = ?fobj
               and evs = three_events and i = 0 and ps = sample_params and s = sample_state
               and e = "TypeError []" and f = ?fresh and rest = "[]"] b fresh_arn fresh_id
    by blast
  have stale_arn: "\<not> (destinationArn ?stale =
      ''arn:'' @ partition sample_params @ '':lambda:'' @ region sample_params @ '':''
        @ accountId sample_params @ '':function:'' @ name (functionObj sample_params)
      \<and> getLogicalIdFromFilterName (filterName ?stale) =
      Some (getCloudWatchLogLogicalId deleting_env (functionName sample_params)
              (logSubscriptionSerialNumber sample_params)))"
    by (simp add: ps)
  have stale: "snd (fixLogGroupSubscriptionFilters deleting_env sample_params sample_state)
                 = sample_state\<lparr>calls := calls sample_state @
                     [DescribeSubscriptionFilters (logGroupName sample_params),
                      DeleteSubscriptionFilter (logGroupName sample_params)
                        (filterName ?stale)]\<rparr>
               \<and> fst (fixLogGroupSubscriptionFilters deleting_env sample_params sample_state)
                 = Inr DeleteResponse"
    using c6 [where env = deleting_env and ?s0.0 = sample_state and aid = "''123''"
               and part = "''aws''" and fname = "''hello''" and fobj = ?fobj
               and evs = three_events and i = 0 and ps = sample_params and s = sample_state
               and e = "TypeError []" and f = ?stale and rest = "[]"] c stale_arn d
    by blast
  then have deleted: "fixLogGroupSubscriptionFilters deleting_env sample_params sample_state =
       (Inr DeleteResponse,
        sample_state\<lparr>calls := calls sample_state @
                     [DescribeSubscriptionFilters (logGroupName sample_params),
                      DeleteSubscriptionFilter (logGroupName sample_params)
                        (filterName ?stale)]\<rparr>)"
    by (simp add: prod_eq_iff)
  show ?thesis
    unfolding rec ev0 ev2 failed none fresh deleted
    by (simp add: acct len three_events_bindings sample_fields ps) (simp add: sample_state_def)
qed

text \<open>
  C2. On the sample service the log group has a filter of another function and the
  provider rejects its deletion. The rejection is expected to come out of
  \<open>fixLogGroupSubscriptionFilters\<close> and to abort the check. The code fulfils instead:
  the trailing \<open>.catch(() => undefined)\<close> also handles the rejection of the delete
  request, so \<open>fixLogGroupSubscriptionFilters\<close> fulfils with \<open>undefined\<close> and
  \<open>checkForChanges\<close> fulfils as if the filter had been deleted.
\<close>

theorem deleteSubscriptionFilter_error_swallowed:
  "deleteSubscriptionFilter sample_env
     [GetAccountInfo, DescribeSubscriptionFilters ''/aws/lambda/other'']
     ''/aws/lambda/other'' ''svc-dev-OldLogsSubscriptionFilterCloudWatchLog1-XYZ''
     = Inl (ProviderError ''Rate exceeded'' (Some 400))
   \<and> fixLogGroupSubscriptionFilters sample_env sample_params
       (sample_state\<lparr>calls := [GetAccountInfo]\<rparr>) =
       (Inr Undefined,
        \<lparr>shouldNotDeploy = False, logged = [],
         calls = [GetAccountInfo, DescribeSubscriptionFilters ''/aws/lambda/other'',
                  DeleteSubscriptionFilter ''/aws/lambda/other''
                    ''svc-dev-OldLogsSubscriptionFilterCloudWatchLog1-XYZ'']\<rparr>)
   \<and> checkForChanges sample_env \<lparr>force = True\<rparr> sample_state =
       (Inr (Array [Array [Undefined]]),
        \<lparr>shouldNotDeploy = False, logged = [],
         calls = [GetAccountInfo, DescribeSubscriptionFilters ''/aws/lambda/other'',
                  DeleteSubscriptionFilter ''/aws/lambda/other''
                    ''svc-dev-OldLogsSubscriptionFilterCloudWatchLog1-XYZ'']\<rparr>)"
proof -
  have "checkForChanges sample_env \<lparr>force = True\<rparr> sample_state =
      checkLogGroupSubscriptionFilterResourceLimitExceeded sample_env
        (sample_state\<lparr>shouldNotDeploy := False\<rparr>)"
    by (simp add: checkForChanges_force_run)
  then show ?thesis
    using sample_reconciler [of "''T''" "sample_state\<lparr>shouldNotDeploy := False\<rparr>"]
      sample_fix [of "''T''" "sample_state\<lparr>calls := [GetAccountInfo]\<rparr>"]
    by (simp add: sample_env_self sample_fields sample_state_def sample_params_def)
qed

end
